theory Spec2Isabelle
  imports Main
begin

section \<open>The post-creation retry wrapper (udf\_helpers/cailab-post/function.py)\<close>

text \<open>
  \<^verbatim>\<open>_run_with_auth_retry\<close> calls a probe \<^verbatim>\<open>request_fn\<close> up to \<^verbatim>\<open>max_attempts\<close> times.
  The probe is a Python callable with effects of its own, so it is modelled as a
  transition on a probe state \<open>'s\<close>: one invocation consumes a state and gives the
  outcome together with the next state.

  An invocation either returns a \<^verbatim>\<open>requests.Response\<close> (its \<^verbatim>\<open>status_code\<close> and
  \<^verbatim>\<open>text\<close>), raises a \<^verbatim>\<open>requests.RequestException\<close> (caught by the wrapper), or raises
  any other exception (not caught: it leaves the wrapper at once).
\<close>

datatype outcome =
    Response int string
  | RequestException string
  | OtherException string

text \<open>
  The value of the local variable \<^verbatim>\<open>last_error\<close> once it is assigned: either
  \<^verbatim>\<open>RuntimeError(f"Auth not ready ({status_code}): {text}")\<close> or the caught
  \<^verbatim>\<open>RequestException\<close>.
\<close>

datatype last_error =
    AuthNotReady int string
  | TransportError string

text \<open>
  What leaves the wrapper as an exception:
  \<^item> \<open>RequestFailed c t\<close> is \<^verbatim>\<open>RuntimeError(f"Org post-creation request failed ({c}): {t}")\<close>,
    raised inside the loop for a status that is neither a success nor 401/403;
  \<^item> \<open>AttemptsExhausted n e\<close> is
    \<^verbatim>\<open>RuntimeError(f"Org post-creation request failed after {n} attempts: {e}")\<close>,
    raised after the loop, \<open>e\<close> being \<^verbatim>\<open>last_error\<close> (\<open>None\<close> while unassigned);
  \<^item> \<open>Uncaught m\<close> is an exception of the probe that is not a \<^verbatim>\<open>RequestException\<close>.
\<close>

datatype retry_exn =
    RequestFailed int string
  | AttemptsExhausted int "last_error option"
  | Uncaught string

text \<open>
  The observable effects of a run, in order: an invocation of the probe, a call of
  \<^verbatim>\<open>log_fn\<close> with the message
  \<^verbatim>\<open>f"Auth not ready yet; retrying org request ({attempt}/{max_attempts})"\<close>, and a call
  of \<^verbatim>\<open>time.sleep(delay_seconds)\<close>. The delay is passed through unchanged, so its
  type is left open.
\<close>

datatype 'd effect =
    Invoked
  | Logged int int
  | Slept 'd

text \<open>\<^verbatim>\<open>allowed_successes = success_statuses or {200}\<close>: \<^verbatim>\<open>None\<close> and the empty set are falsy.\<close>

definition allowed_successes :: "int set option \<Rightarrow> int set" where
  "allowed_successes success_statuses =
     (case success_statuses of
        None \<Rightarrow> {200}
      | Some ss \<Rightarrow> if ss = {} then {200} else ss)"

text \<open>
  The tail of the loop body, after the \<^verbatim>\<open>try\<close> statement:
  \<^verbatim>\<open>if attempt < max_attempts: log_fn(...); time.sleep(delay_seconds)\<close>.
\<close>

definition after_attempt :: "int \<Rightarrow> int \<Rightarrow> 'd \<Rightarrow> 'd effect list" where
  "after_attempt attempt max_attempts delay_seconds =
     (if attempt < max_attempts then [Logged attempt max_attempts, Slept delay_seconds] else [])"

text \<open>
  The \<^verbatim>\<open>for attempt in range(1, max_attempts + 1)\<close> loop, as a recursion over the
  attempts still to run. The arguments carried along are \<^verbatim>\<open>last_error\<close>, the state of
  the probe and the trace of effects so far. Falling off the end of the loop raises
  \<open>AttemptsExhausted\<close>.
\<close>

fun attempts ::
  "('s \<Rightarrow> outcome \<times> 's) \<Rightarrow> int set \<Rightarrow> int \<Rightarrow> 'd \<Rightarrow> int list \<Rightarrow> last_error option \<Rightarrow>
   's \<Rightarrow> 'd effect list \<Rightarrow> (retry_exn + unit) \<times> 's \<times> 'd effect list" where
  "attempts request_fn ok max_attempts delay [] last_err s tr =
     (Inl (AttemptsExhausted max_attempts last_err), s, tr)"
| "attempts request_fn ok max_attempts delay (attempt # rest) last_err s tr =
     (case request_fn s of
        (Response status_code txt, s') \<Rightarrow>
          if status_code \<in> ok then (Inr (), s', tr @ [Invoked])
          else if status_code \<notin> {401, 403}
          then (Inl (RequestFailed status_code txt), s', tr @ [Invoked])
          else attempts request_fn ok max_attempts delay rest
                 (Some (AuthNotReady status_code txt)) s'
                 (tr @ [Invoked] @ after_attempt attempt max_attempts delay)
      | (RequestException exc, s') \<Rightarrow>
          attempts request_fn ok max_attempts delay rest
            (Some (TransportError exc)) s'
            (tr @ [Invoked] @ after_attempt attempt max_attempts delay)
      | (OtherException exc, s') \<Rightarrow> (Inl (Uncaught exc), s', tr @ [Invoked]))"

definition run_with_auth_retry ::
  "('s \<Rightarrow> outcome \<times> 's) \<Rightarrow> int \<Rightarrow> 'd \<Rightarrow> int set option \<Rightarrow> 's \<Rightarrow>
   (retry_exn + unit) \<times> 's \<times> 'd effect list" where
  "run_with_auth_retry request_fn max_attempts delay_seconds success_statuses s =
     attempts request_fn (allowed_successes success_statuses) max_attempts delay_seconds
       [1..max_attempts] None s []"

text \<open>Reading a probe outcome.\<close>

fun status_of :: "outcome \<Rightarrow> int option" where
  "status_of (Response c t) = Some c"
| "status_of (RequestException e) = None"
| "status_of (OtherException e) = None"

fun text_of :: "outcome \<Rightarrow> string" where
  "text_of (Response c t) = t"
| "text_of (RequestException e) = e"
| "text_of (OtherException e) = e"

text \<open>The state of the probe after \<open>n\<close> invocations.\<close>

definition probe_state :: "('s \<Rightarrow> outcome \<times> 's) \<Rightarrow> nat \<Rightarrow> 's \<Rightarrow> 's" where
  "probe_state request_fn n s = ((\<lambda>x. snd (request_fn x)) ^^ n) s"

text \<open>Counting the effects in a trace.\<close>

definition invocations :: "'d effect list \<Rightarrow> nat" where
  "invocations tr = length (filter (\<lambda>e. e = Invoked) tr)"

definition sleeps :: "'d effect list \<Rightarrow> nat" where
  "sleeps tr = length (filter (\<lambda>e. case e of Slept d \<Rightarrow> True | _ \<Rightarrow> False) tr)"

section \<open>The deployment worker (udf\_worker/function.py)\<close>

subsection \<open>Data\<close>

text \<open>
  A DynamoDB attribute value is \<^verbatim>\<open>{"S": s}\<close> or \<^verbatim>\<open>{"N": n}\<close>; an item is a dictionary from
  attribute names to attribute values; the state table maps a \<^verbatim>\<open>depID\<close> to its item.
\<close>

datatype attr = S string | N int

type_synonym item = "string \<rightharpoonup> attr"

text \<open>
  The exceptions the worker can meet. \<open>ClientError\<close> stands for an error raised by the
  DynamoDB client itself; its text is what \<^verbatim>\<open>str\<close> gives.
\<close>

datatype exn =
    KeyError string
  | RuntimeError string
  | ClientError string
  | UnboundLocalError string

definition quote :: string where
  "quote = [CHR 0x27]"

text \<open>\<^verbatim>\<open>str(e)\<close>: the \<^verbatim>\<open>repr\<close> of the key for a \<^verbatim>\<open>KeyError\<close>, the message otherwise.\<close>

fun str_exn :: "exn \<Rightarrow> string" where
  "str_exn (KeyError k) = quote @ k @ quote"
| "str_exn (RuntimeError m) = m"
| "str_exn (ClientError m) = m"
| "str_exn (UnboundLocalError v) =
     ''cannot access local variable '' @ quote @ v @ quote @
     '' where it is not associated with a value''"

text \<open>\<^verbatim>\<open>str(b)\<close> for a Python bool, and the f-string rendering of an optional name.\<close>

definition str_bool :: "bool \<Rightarrow> string" where
  "str_bool b = (if b then ''True'' else ''False'')"

definition str_opt :: "string option \<Rightarrow> string" where
  "str_opt x = (case x of None \<Rightarrow> ''None'' | Some s \<Rightarrow> s)"

text \<open>
  One record of a DynamoDB stream event:
  \<^verbatim>\<open>{"eventName": ..., "dynamodb": {"NewImage": {...}, "Keys": {...}}}\<close>.
  Every key may be missing, in which case subscripting raises \<^verbatim>\<open>KeyError\<close>.
\<close>

record stream_data =
  NewImage :: "item option"
  Keys :: "item option"

record event_record =
  eventName :: "string option"
  dynamodb :: "stream_data option"

record event =
  Records :: "event_record list option"

text \<open>
  The payloads the worker sends, one constructor per dictionary it builds:
  \<^item> \<open>CreateNamespace ssm_base_path namespace_name description\<close>
  \<^item> \<open>CreateUser ssm_base_path first_name last_name email group_names namespace_roles\<close>,
    a namespace role \<^verbatim>\<open>{"namespace": n, "role": r}\<close> being the pair \<open>(n, r)\<close>
  \<^item> \<open>RemoveUser ssm_base_path email\<close>
  \<^item> \<open>RemoveNamespace ssm_base_path namespace_name\<close>
\<close>

datatype payload =
    CreateNamespace string string string
  | CreateUser string string string string "string list" "(string \<times> string) list"
  | RemoveUser string string
  | RemoveNamespace string string

text \<open>
  The decoded answer of an invoked function, read only through \<^verbatim>\<open>.get("statusCode")\<close>
  and \<^verbatim>\<open>.get("body")\<close>: \<open>None\<close> is a missing key (or, for the status, a value that is
  no integer and so differs from 200).
\<close>

record response =
  statusCode :: "int option"
  body :: "string option"

text \<open>The lab settings read by \<^verbatim>\<open>process_insert\<close> from the result of \<^verbatim>\<open>get_lab_info\<close>.\<close>

record lab_info =
  ssm_base_path :: string
  group_names :: "string list"
  namespace_roles :: "(string \<times> string) list"
  user_ns :: bool
  pre_lambda :: "string option"

text \<open>The module-level constants read with \<^verbatim>\<open>os.getenv\<close>; \<open>None\<close> is an unset variable.\<close>

record config =
  CREATE_NAMESPACE_LAMBDA :: "string option"
  CREATE_USER_LAMBDA :: "string option"
  REMOVE_NAMESPACE_LAMBDA :: "string option"
  REMOVE_USER_LAMBDA :: "string option"
  LAB_CONFIGURATION_TABLE :: "string option"

text \<open>
  What lies outside the worker, as parameters. The worker ticks a counter at each
  interaction with the outside (reading the clock, a DynamoDB call, a Lambda call); the
  behaviour of the outside may depend on that counter, so that the same call may get
  different answers at different times.
  \<^item> \<open>clock n\<close> is \<^verbatim>\<open>int(time.time())\<close> read at tick \<open>n\<close>;
  \<^item> \<open>ddb_fault n\<close> is \<open>Some text\<close> when the DynamoDB call made at tick \<open>n\<close> raises
    (service unavailable, throttling, a missing table name);
  \<^item> \<open>lambda_service n name payload\<close> is the outcome of \<^verbatim>\<open>lambda_client.invoke\<close> and of
    decoding its payload at tick \<open>n\<close>: \<open>Inl text\<close> when either raises, the decoded
    answer otherwise;
  \<^item> \<open>get_lab_info labID\<close> is the function of that name called by \<^verbatim>\<open>process_insert\<close>.
    It is not defined in the source file, so it is a parameter here: it returns the
    lab settings or raises.
\<close>

record services =
  clock :: "nat \<Rightarrow> int"
  ddb_fault :: "nat \<Rightarrow> string option"
  lambda_service :: "nat \<Rightarrow> string option \<Rightarrow> payload \<Rightarrow> string + response"
  get_lab_info :: "string \<Rightarrow> exn + lab_info"

text \<open>
  The state the worker acts on: the deployment state table, the Lambda invocations made
  so far (function name and payload, in order), the step statuses stored so far
  (\<^verbatim>\<open>depID\<close>, step, status, in order; kept to state properties of the history of
  writes), and the tick counter.
\<close>

record world =
  table :: "string \<rightharpoonup> item"
  calls :: "(string option \<times> payload) list"
  writes :: "(string \<times> string \<times> string) list"
  ticks :: nat

definition tick :: "world \<Rightarrow> world" where
  "tick w = w\<lparr>ticks := Suc (ticks w)\<rparr>"

subsection \<open>Sequencing statements that may raise\<close>

text \<open>
  A statement takes the world and gives either the raised exception or its value,
  with the world it leaves. \<open>then_do m f\<close> runs \<open>m\<close> and, unless it raised, \<open>f\<close> on
  its value.
\<close>

type_synonym 'a stmt = "world \<Rightarrow> (exn + 'a) \<times> world"

definition then_do :: "'a stmt \<Rightarrow> ('a \<Rightarrow> 'b stmt) \<Rightarrow> 'b stmt" where
  "then_do m f w = (case m w of (Inl e, w') \<Rightarrow> (Inl e, w') | (Inr a, w') \<Rightarrow> f a w')"

definition ret :: "'a \<Rightarrow> 'a stmt" where
  "ret a w = (Inr a, w)"

definition lift :: "exn + 'a \<Rightarrow> 'a stmt" where
  "lift r w = (r, w)"

subsection \<open>Reading dictionaries\<close>

text \<open>\<^verbatim>\<open>image[k]["S"]\<close>: \<^verbatim>\<open>KeyError(k)\<close> without the attribute, \<^verbatim>\<open>KeyError("S")\<close> for a number.\<close>

definition S_of :: "item \<Rightarrow> string \<Rightarrow> exn + string" where
  "S_of im k =
     (case im k of
        None \<Rightarrow> Inl (KeyError k)
      | Some (S s) \<Rightarrow> Inr s
      | Some (N n) \<Rightarrow> Inl (KeyError ''S''))"

text \<open>\<^verbatim>\<open>not x\<close> for an environment variable: unset or empty.\<close>

definition falsy :: "string option \<Rightarrow> bool" where
  "falsy x = (case x of None \<Rightarrow> True | Some s \<Rightarrow> s = [])"

text \<open>\<^verbatim>\<open>email.split("@")[0]\<close>: the text before the first \<^verbatim>\<open>@\<close>, all of it without one.\<close>

definition local_part :: "string \<Rightarrow> string" where
  "local_part email = takeWhile (\<lambda>c. c \<noteq> CHR ''@'') email"

subsection \<open>The state store and the action client\<close>

text \<open>
  \<^verbatim>\<open>dynamodb.update_item\<close> with an update expression \<^verbatim>\<open>SET n1 = v1, n2 = v2, ...\<close>.
  DynamoDB rejects an expression that names an attribute twice or names the key
  attribute; otherwise it creates the item when it is absent (holding only its key)
  and assigns the attributes, leaving all others as they are.
\<close>

fun apply_sets :: "(string \<times> attr) list \<Rightarrow> item \<Rightarrow> item" where
  "apply_sets [] it = it"
| "apply_sets ((n, v) # rest) it = apply_sets rest (it(n \<mapsto> v))"

definition item_to_update :: "(string \<rightharpoonup> item) \<Rightarrow> string \<Rightarrow> item" where
  "item_to_update tbl key = (case tbl key of None \<Rightarrow> [''depID'' \<mapsto> S key] | Some it \<Rightarrow> it)"

definition update_item ::
  "services \<Rightarrow> string \<Rightarrow> (string \<times> attr) list \<Rightarrow> world \<Rightarrow> (string + unit) \<times> world" where
  "update_item X key sets w =
     (case ddb_fault X (ticks w) of
        Some e \<Rightarrow> (Inl e, tick w)
      | None \<Rightarrow>
          if \<not> distinct (map fst sets) \<or> ''depID'' \<in> set (map fst sets)
          then (Inl ''ValidationException'', tick w)
          else (Inr (),
                tick (w\<lparr>table := (table w)(key \<mapsto>
                  apply_sets sets (item_to_update (table w) key))\<rparr>)))"

text \<open>\<^verbatim>\<open>dynamodb.get_item(...).get("Item")\<close>: the stored item, \<open>None\<close> when there is none.\<close>

definition get_item :: "services \<Rightarrow> string \<Rightarrow> (item option) stmt" where
  "get_item X key w =
     (case ddb_fault X (ticks w) of
        Some e \<Rightarrow> (Inl (ClientError e), tick w)
      | None \<Rightarrow> (Inr (table w key), tick w))"

text \<open>
  \<^verbatim>\<open>invoke_lambda\<close>: any failure of the invocation or of decoding its answer is raised
  again as a \<^verbatim>\<open>RuntimeError\<close> naming the function.
\<close>

definition invoke_lambda :: "services \<Rightarrow> string option \<Rightarrow> payload \<Rightarrow> response stmt" where
  "invoke_lambda X function_name payload w =
     (let w' = tick (w\<lparr>calls := calls w @ [(function_name, payload)]\<rparr>)
      in case lambda_service X (ticks w) function_name payload of
           Inl e \<Rightarrow>
             (Inl (RuntimeError (''Failed to invoke Lambda '' @ quote @ str_opt function_name @
                                 quote @ '': '' @ e)), w')
         | Inr r \<Rightarrow> (Inr r, w'))"

text \<open>
  \<^verbatim>\<open>update_deployment_state\<close>: the expression sets the attribute named by \<^verbatim>\<open>step\<close> and
  \<^verbatim>\<open>updated_at\<close>, and \<^verbatim>\<open>details\<close> too when \<^verbatim>\<open>details\<close> is truthy (neither \<^verbatim>\<open>None\<close> nor
  empty). The clock is read while the expression is built, before the store is called.
  Any failure is raised again as a \<^verbatim>\<open>RuntimeError\<close>.
\<close>

definition update_expression :: "string \<Rightarrow> string \<Rightarrow> int \<Rightarrow> string option \<Rightarrow> (string \<times> attr) list" where
  "update_expression step status timestamp details =
     [(step, S status), (''updated_at'', N timestamp)] @
     (case details of
        None \<Rightarrow> []
      | Some d \<Rightarrow> if d = [] then [] else [(''details'', S d)])"

definition update_deployment_state ::
  "services \<Rightarrow> string \<Rightarrow> string \<Rightarrow> string \<Rightarrow> string option \<Rightarrow> unit stmt" where
  "update_deployment_state X depID step status details w =
     (case update_item X depID (update_expression step status (clock X (ticks w)) details)
             (tick w) of
        (Inl e, w') \<Rightarrow>
          (Inl (RuntimeError (''Failed to update deployment state in DynamoDB: '' @ e)), w')
      | (Inr u, w') \<Rightarrow> (Inr (), w'\<lparr>writes := writes w' @ [(depID, step, status)]\<rparr>))"

subsection \<open>The provisioning workflow\<close>

text \<open>
  The first statements of \<^verbatim>\<open>process_insert\<close> bind \<^verbatim>\<open>new_image\<close>, \<^verbatim>\<open>depID\<close>, \<^verbatim>\<open>labID\<close>,
  \<^verbatim>\<open>email\<close> and \<^verbatim>\<open>petname\<close>. A failure comes with the binding of \<^verbatim>\<open>depID\<close> at that
  point, which the \<^verbatim>\<open>except\<close> clause reads: \<open>None\<close> while \<^verbatim>\<open>depID\<close> is unbound.
\<close>

definition new_image_of :: "event_record \<Rightarrow> exn + item" where
  "new_image_of record =
     (case dynamodb record of
        None \<Rightarrow> Inl (KeyError ''dynamodb'')
      | Some d \<Rightarrow> (case NewImage d of None \<Rightarrow> Inl (KeyError ''NewImage'') | Some im \<Rightarrow> Inr im))"

definition insert_fields ::
  "event_record \<Rightarrow> (string option \<times> exn) + (string \<times> string \<times> string \<times> string)" where
  "insert_fields record =
     (case new_image_of record of
        Inl e \<Rightarrow> Inl (None, e)
      | Inr new_image \<Rightarrow>
     (case S_of new_image ''depID'' of
        Inl e \<Rightarrow> Inl (None, e)
      | Inr depID \<Rightarrow>
     (case S_of new_image ''labID'' of
        Inl e \<Rightarrow> Inl (Some depID, e)
      | Inr labID \<Rightarrow>
     (case S_of new_image ''email'' of
        Inl e \<Rightarrow> Inl (Some depID, e)
      | Inr email \<Rightarrow>
     (case S_of new_image ''petname'' of
        Inl e \<Rightarrow> Inl (Some depID, e)
      | Inr petname \<Rightarrow> Inr (depID, labID, email, petname))))))"

text \<open>
  Step 1, the namespace, when the lab asks for one. Its value is the flag
  \<^verbatim>\<open>created_namespace\<close> with the list \<^verbatim>\<open>namespace_roles\<close> as the step leaves it.
\<close>

definition namespace_step ::
  "config \<Rightarrow> services \<Rightarrow> string \<Rightarrow> string \<Rightarrow> lab_info \<Rightarrow> (bool \<times> (string \<times> string) list) stmt" where
  "namespace_step C X depID petname info =
     (if user_ns info then
        then_do (update_deployment_state X depID ''create_namespace'' ''IN_PROGRESS''
                   (Some ''Creating namespace'')) (\<lambda>_.
        then_do (invoke_lambda X (CREATE_NAMESPACE_LAMBDA C)
                   (CreateNamespace (ssm_base_path info) petname (''Namespace for '' @ depID)))
          (\<lambda>namespace_response.
        if statusCode namespace_response = Some 200 then
          then_do (update_deployment_state X depID ''create_namespace'' ''SUCCESS''
                     (body namespace_response)) (\<lambda>_.
          ret (True, namespace_roles info @ [(petname, ''ves-io-admin'')]))
        else
          then_do (update_deployment_state X depID ''create_namespace'' ''FAILED''
                     (body namespace_response)) (\<lambda>_.
          ret (False, namespace_roles info))))
      else ret (False, namespace_roles info))"

text \<open>Step 2, the user. Its value is the flag \<^verbatim>\<open>created_user\<close>.\<close>

definition user_step ::
  "config \<Rightarrow> services \<Rightarrow> string \<Rightarrow> string \<Rightarrow> lab_info \<Rightarrow> (string \<times> string) list \<Rightarrow> bool stmt" where
  "user_step C X depID email info roles =
     then_do (update_deployment_state X depID ''create_user'' ''IN_PROGRESS''
                (Some ''Creating user'')) (\<lambda>_.
     then_do (invoke_lambda X (CREATE_USER_LAMBDA C)
                (CreateUser (ssm_base_path info) (local_part email) ''User'' email
                   (group_names info) roles))
       (\<lambda>user_response.
     if statusCode user_response = Some 200 then
       then_do (update_deployment_state X depID ''create_user'' ''SUCCESS'' (body user_response))
         (\<lambda>_. ret True)
     else
       then_do (update_deployment_state X depID ''create_user'' ''FAILED'' (body user_response))
         (\<lambda>_. ret False)))"

text \<open>The statements of the \<^verbatim>\<open>try\<close> block once the fields are bound.\<close>

definition insert_steps ::
  "config \<Rightarrow> services \<Rightarrow> string \<Rightarrow> string \<Rightarrow> string \<Rightarrow> string \<Rightarrow> unit stmt" where
  "insert_steps C X depID labID email petname =
     then_do (update_deployment_state X depID ''deployment_status'' ''IN_PROGRESS''
                (Some ''Starting deployment'')) (\<lambda>_.
     then_do (lift (if falsy (CREATE_NAMESPACE_LAMBDA C) \<or> falsy (CREATE_USER_LAMBDA C) \<or>
                       falsy (LAB_CONFIGURATION_TABLE C)
                    then Inl (RuntimeError ''Missing required environment variables.'')
                    else Inr ())) (\<lambda>_.
     then_do (lift (get_lab_info X labID)) (\<lambda>info.
     then_do (namespace_step C X depID petname info) (\<lambda>(created_namespace, roles).
     then_do (user_step C X depID email info roles) (\<lambda>created_user.
     then_do (update_deployment_state X depID ''created_namespace''
                (str_bool created_namespace) None) (\<lambda>_.
     update_deployment_state X depID ''created_user'' (str_bool created_user) None))))))"

text \<open>
  The whole \<^verbatim>\<open>try\<close> block: what it raises comes with the binding of \<^verbatim>\<open>depID\<close>.
\<close>

definition insert_try ::
  "config \<Rightarrow> services \<Rightarrow> event_record \<Rightarrow> world \<Rightarrow> ((string option \<times> exn) + unit) \<times> world" where
  "insert_try C X record w =
     (case insert_fields record of
        Inl unbound \<Rightarrow> (Inl unbound, w)
      | Inr (depID, labID, email, petname) \<Rightarrow>
          (case insert_steps C X depID labID email petname w of
             (Inl e, w') \<Rightarrow> (Inl (Some depID, e), w')
           | (Inr u, w') \<Rightarrow> (Inr u, w')))"

text \<open>
  A handler \<^verbatim>\<open>except Exception as e: update_deployment_state(depID, field, "FAILED", str(e)); raise\<close>.
  Reading an unbound \<^verbatim>\<open>depID\<close> raises \<^verbatim>\<open>UnboundLocalError\<close>; a failing update raises
  its own error; otherwise \<^verbatim>\<open>e\<close> is raised again. (The \<^verbatim>\<open>print\<close> calls of the source
  write to standard output only and are left out.)
\<close>

definition record_failure ::
  "services \<Rightarrow> string \<Rightarrow> string option \<Rightarrow> exn \<Rightarrow> unit stmt" where
  "record_failure X field bound_depID e w =
     (case bound_depID of
        None \<Rightarrow> (Inl (UnboundLocalError ''depID''), w)
      | Some depID \<Rightarrow>
          (case update_deployment_state X depID field ''FAILED'' (Some (str_exn e)) w of
             (Inl e', w') \<Rightarrow> (Inl e', w')
           | (Inr u, w') \<Rightarrow> (Inl e, w')))"

definition process_insert :: "config \<Rightarrow> services \<Rightarrow> event_record \<Rightarrow> unit stmt" where
  "process_insert C X record w =
     (case insert_try C X record w of
        (Inl (bound_depID, e), w') \<Rightarrow> record_failure X ''deployment_status'' bound_depID e w'
      | (Inr u, w') \<Rightarrow> (Inr (), w'))"

subsection \<open>The teardown workflow\<close>

text \<open>\<^verbatim>\<open>depID = record["dynamodb"]["Keys"]["depID"]["S"]\<close>.\<close>

definition remove_key :: "event_record \<Rightarrow> exn + string" where
  "remove_key record =
     (case dynamodb record of
        None \<Rightarrow> Inl (KeyError ''dynamodb'')
      | Some d \<Rightarrow> (case Keys d of None \<Rightarrow> Inl (KeyError ''Keys'') | Some ks \<Rightarrow> S_of ks ''depID''))"

text \<open>\<^verbatim>\<open>.get("Item", {})\<close>: a missing item reads as the empty dictionary.\<close>

definition item_or_empty :: "item option \<Rightarrow> item" where
  "item_or_empty found = (case found of None \<Rightarrow> Map.empty | Some it \<Rightarrow> it)"

text \<open>\<^verbatim>\<open>item.get(flag, {}).get("S") == "True"\<close>.\<close>

definition flag_set :: "item \<Rightarrow> string \<Rightarrow> bool" where
  "flag_set it flag = (it flag = Some (S ''True''))"

definition remove_user :: "config \<Rightarrow> services \<Rightarrow> string \<Rightarrow> item \<Rightarrow> unit stmt" where
  "remove_user C X depID it =
     then_do (update_deployment_state X depID ''cleanup_status'' ''IN_PROGRESS''
                (Some ''Removing user'')) (\<lambda>_.
     then_do (lift (S_of it ''ssm_base_path'')) (\<lambda>ssm.
     then_do (lift (S_of it ''email'')) (\<lambda>email.
     then_do (invoke_lambda X (REMOVE_USER_LAMBDA C) (RemoveUser ssm email)) (\<lambda>_.
     ret ()))))"

definition remove_namespace :: "config \<Rightarrow> services \<Rightarrow> string \<Rightarrow> item \<Rightarrow> unit stmt" where
  "remove_namespace C X depID it =
     then_do (update_deployment_state X depID ''cleanup_status'' ''IN_PROGRESS''
                (Some ''Removing namespace'')) (\<lambda>_.
     then_do (lift (S_of it ''ssm_base_path'')) (\<lambda>ssm.
     then_do (lift (S_of it ''petname'')) (\<lambda>petname.
     then_do (invoke_lambda X (REMOVE_NAMESPACE_LAMBDA C) (RemoveNamespace ssm petname)) (\<lambda>_.
     ret ()))))"

text \<open>
  The statements of the \<^verbatim>\<open>try\<close> block once \<^verbatim>\<open>depID\<close> is bound: the lookup of the
  stored item, and what is done with what the lookup found.
\<close>

definition remove_with_item :: "config \<Rightarrow> services \<Rightarrow> string \<Rightarrow> item option \<Rightarrow> unit stmt" where
  "remove_with_item C X depID found =
     (let it = item_or_empty found;
          created_namespace = flag_set it ''created_namespace'';
          created_user = flag_set it ''created_user''
      in
      then_do (if created_user then remove_user C X depID it else ret ()) (\<lambda>_.
      then_do (if created_namespace then remove_namespace C X depID it else ret ()) (\<lambda>_.
      update_deployment_state X depID ''cleanup_status'' ''COMPLETED''
        (Some ''Cleanup completed successfully''))))"

definition remove_steps :: "config \<Rightarrow> services \<Rightarrow> string \<Rightarrow> unit stmt" where
  "remove_steps C X depID = then_do (get_item X depID) (remove_with_item C X depID)"

definition remove_try ::
  "config \<Rightarrow> services \<Rightarrow> event_record \<Rightarrow> world \<Rightarrow> ((string option \<times> exn) + unit) \<times> world" where
  "remove_try C X record w =
     (case remove_key record of
        Inl e \<Rightarrow> (Inl (None, e), w)
      | Inr depID \<Rightarrow>
          (case remove_steps C X depID w of
             (Inl e, w') \<Rightarrow> (Inl (Some depID, e), w')
           | (Inr u, w') \<Rightarrow> (Inr u, w')))"

definition process_remove :: "config \<Rightarrow> services \<Rightarrow> event_record \<Rightarrow> unit stmt" where
  "process_remove C X record w =
     (case remove_try C X record w of
        (Inl (bound_depID, e), w') \<Rightarrow> record_failure X ''cleanup_status'' bound_depID e w'
      | (Inr u, w') \<Rightarrow> (Inr (), w'))"

subsection \<open>The entry point\<close>

text \<open>
  The loop of \<^verbatim>\<open>lambda_handler\<close> over \<^verbatim>\<open>event["Records"]\<close>: an exception of a workflow
  leaves the loop; a record that is neither an insertion nor a removal is passed over.
\<close>

fun handle_records :: "config \<Rightarrow> services \<Rightarrow> event_record list \<Rightarrow> unit stmt" where
  "handle_records C X [] w = (Inr (), w)"
| "handle_records C X (record # rest) w =
     (case eventName record of
        None \<Rightarrow> (Inl (KeyError ''eventName''), w)
      | Some name \<Rightarrow>
          if name = ''INSERT'' then
            (case process_insert C X record w of
               (Inl e, w') \<Rightarrow> (Inl e, w')
             | (Inr u, w') \<Rightarrow> handle_records C X rest w')
          else if name = ''REMOVE'' then
            (case process_remove C X record w of
               (Inl e, w') \<Rightarrow> (Inl e, w')
             | (Inr u, w') \<Rightarrow> handle_records C X rest w')
          else handle_records C X rest w)"

definition lambda_handler :: "config \<Rightarrow> services \<Rightarrow> event \<Rightarrow> unit stmt" where
  "lambda_handler C X ev w =
     (case Records ev of
        None \<Rightarrow> (Inl (KeyError ''Records''), w)
      | Some records \<Rightarrow> handle_records C X records w)"

subsection \<open>Observing a run\<close>

text \<open>An attribute of the item stored for a deployment, \<open>None\<close> without item or attribute.\<close>

definition attribute_of :: "world \<Rightarrow> string \<Rightarrow> string \<Rightarrow> attr option" where
  "attribute_of w depID name = (case table w depID of None \<Rightarrow> None | Some it \<Rightarrow> it name)"

text \<open>The Lambda invocations made between two worlds of a run.\<close>

definition new_calls :: "world \<Rightarrow> world \<Rightarrow> (string option \<times> payload) list" where
  "new_calls w w' = drop (length (calls w)) (calls w')"

text \<open>
  The run from \<open>w\<close> to \<open>w'\<close> kept the invocations made before it and made only
  invocations whose payload satisfies \<open>P\<close>.
\<close>

definition calls_added :: "(payload \<Rightarrow> bool) \<Rightarrow> world \<Rightarrow> world \<Rightarrow> bool" where
  "calls_added P w w' =
     (take (length (calls w)) (calls w') = calls w \<and> list_all (\<lambda>(name, p). P p) (new_calls w w'))"

fun is_remove_namespace :: "payload \<Rightarrow> bool" where
  "is_remove_namespace (RemoveNamespace ssm name) = True"
| "is_remove_namespace other = False"

fun is_remove_user :: "payload \<Rightarrow> bool" where
  "is_remove_user (RemoveUser ssm email) = True"
| "is_remove_user other = False"

text \<open>
  The writes of step statuses made between two worlds of a run; the statuses among
  some writes that belong to one step of one deployment, in order; and so the statuses
  stored for one step of one deployment during a run.
\<close>

definition new_writes :: "world \<Rightarrow> world \<Rightarrow> (string \<times> string \<times> string) list" where
  "new_writes w w' = drop (length (writes w)) (writes w')"

definition statuses_of :: "string \<Rightarrow> string \<Rightarrow> (string \<times> string \<times> string) list \<Rightarrow> string list" where
  "statuses_of depID step ws =
     map (\<lambda>(d, s, v). v) (filter (\<lambda>(d, s, v). d = depID \<and> s = step) ws)"

definition statuses_written :: "string \<Rightarrow> string \<Rightarrow> world \<Rightarrow> world \<Rightarrow> string list" where
  "statuses_written depID step w w' = statuses_of depID step (new_writes w w')"

text \<open>The transitions a step status may make, and a sequence that makes only those.\<close>

definition forward :: "string \<Rightarrow> string \<Rightarrow> bool" where
  "forward a b =
     ((a = ''PENDING'' \<and> b = ''IN_PROGRESS'') \<or>
      (a = ''IN_PROGRESS'' \<and> (b = ''SUCCESS'' \<or> b = ''FAILED'')))"

fun only_forward :: "string list \<Rightarrow> bool" where
  "only_forward (a # b # rest) = (forward a b \<and> only_forward (b # rest))"
| "only_forward short = True"

text \<open>
  A statement stores only under the step names in \<open>T\<close>, and only forward: whatever the
  world, it keeps the writes made before and the writes it adds are for steps in \<open>T\<close>
  and make only forward transitions for every step of every deployment.
\<close>

definition stores_only :: "string set \<Rightarrow> 'a stmt \<Rightarrow> bool" where
  "stores_only T m =
     (\<forall>w. \<exists>ws. writes (snd (m w)) = writes w @ ws \<and>
                (\<forall>(d, s, v) \<in> set ws. s \<in> T) \<and>
                (\<forall>d s. only_forward (statuses_of d s ws)))"

subsection \<open>A concrete deployment\<close>

text \<open>
  The setting of the end-to-end scenarios: every environment variable set, a store
  that never fails, a clock that advances with the ticks, a lab that asks for a
  namespace, and actions that answer 200.
\<close>

definition demo_config :: config where
  "demo_config =
     \<lparr>CREATE_NAMESPACE_LAMBDA = Some ''create-namespace'',
      CREATE_USER_LAMBDA = Some ''create-user'',
      REMOVE_NAMESPACE_LAMBDA = Some ''remove-namespace'',
      REMOVE_USER_LAMBDA = Some ''remove-user'',
      LAB_CONFIGURATION_TABLE = Some ''lab-configuration''\<rparr>"

definition demo_lab :: lab_info where
  "demo_lab =
     \<lparr>ssm_base_path = ''/labs/l1'', group_names = [''students''], namespace_roles = [],
      user_ns = True, pre_lambda = None\<rparr>"

definition demo_services :: services where
  "demo_services =
     \<lparr>clock = (\<lambda>n. 1700000000 + int n),
      ddb_fault = (\<lambda>n. None),
      lambda_service = (\<lambda>n name p. Inr \<lparr>statusCode = Some 200, body = Some ''done''\<rparr>),
      get_lab_info = (\<lambda>labID. Inr demo_lab)\<rparr>"

definition fresh_world :: world where
  "fresh_world = \<lparr>table = Map.empty, calls = [], writes = [], ticks = 0\<rparr>"

definition insert_d1 :: event_record where
  "insert_d1 =
     \<lparr>eventName = Some ''INSERT'',
      dynamodb = Some
        \<lparr>NewImage = Some [''depID'' \<mapsto> S ''d1'', ''labID'' \<mapsto> S ''l1'',
                           ''email'' \<mapsto> S ''a@b.com'', ''petname'' \<mapsto> S ''cow''],
         Keys = None\<rparr>\<rparr>"

definition remove_of :: "string \<Rightarrow> event_record" where
  "remove_of depID =
     \<lparr>eventName = Some ''REMOVE'',
      dynamodb = Some \<lparr>NewImage = None, Keys = Some [''depID'' \<mapsto> S depID]\<rparr>\<rparr>"

text \<open>A store that already holds an item for \<^verbatim>\<open>d1\<close>, with details.\<close>

definition world_with_details :: world where
  "world_with_details =
     \<lparr>table = [''d1'' \<mapsto> [''depID'' \<mapsto> S ''d1'', ''details'' \<mapsto> S ''Creating namespace'']],
      calls = [], writes = [], ticks = 0\<rparr>"

text \<open>
  A store that holds the item of a provisioned deployment \<^verbatim>\<open>d1\<close>, both steps recorded as
  successful, with the two flags as given.
\<close>

definition stored_world :: "string \<Rightarrow> string \<Rightarrow> world" where
  "stored_world namespace_flag user_flag =
     \<lparr>table = [''d1'' \<mapsto>
        [''depID'' \<mapsto> S ''d1'', ''create_namespace'' \<mapsto> S ''SUCCESS'',
         ''create_user'' \<mapsto> S ''SUCCESS'', ''created_namespace'' \<mapsto> S namespace_flag,
         ''created_user'' \<mapsto> S user_flag, ''ssm_base_path'' \<mapsto> S ''/labs/l1'',
         ''email'' \<mapsto> S ''a@b.com'', ''petname'' \<mapsto> S ''cow'']],
      calls = [], writes = [], ticks = 0\<rparr>"

text \<open>
  The same services with a namespace-creation action that answers 409: the namespace
  exists already.
\<close>

definition conflict_services :: services where
  "conflict_services =
     \<lparr>clock = (\<lambda>n. 1700000000 + int n),
      ddb_fault = (\<lambda>n. None),
      lambda_service = (\<lambda>n name p.
        case p of
          CreateNamespace ssm namespace description \<Rightarrow>
            Inr \<lparr>statusCode = Some 409, body = Some ''exists''\<rparr>
        | _ \<Rightarrow> Inr \<lparr>statusCode = Some 200, body = Some ''done''\<rparr>),
      get_lab_info = (\<lambda>labID. Inr demo_lab)\<rparr>"

text \<open>Insertions that lack a field: one without \<^verbatim>\<open>labID\<close>, one without \<^verbatim>\<open>depID\<close>.\<close>

definition insert_without_lab :: event_record where
  "insert_without_lab =
     \<lparr>eventName = Some ''INSERT'',
      dynamodb = Some
        \<lparr>NewImage = Some [''depID'' \<mapsto> S ''d1'', ''email'' \<mapsto> S ''a@b.com'',
                           ''petname'' \<mapsto> S ''cow''],
         Keys = None\<rparr>\<rparr>"

definition insert_without_depID :: event_record where
  "insert_without_depID =
     \<lparr>eventName = Some ''INSERT'',
      dynamodb = Some
        \<lparr>NewImage = Some [''labID'' \<mapsto> S ''l1'', ''email'' \<mapsto> S ''a@b.com'',
                           ''petname'' \<mapsto> S ''cow''],
         Keys = None\<rparr>\<rparr>"

text \<open>
  Services whose store is down; and services whose store goes down after the first two
  updates (each takes two ticks), whose actions cannot be reached, for a lab that asks
  for no namespace.
\<close>

definition down_services :: services where
  "down_services =
     \<lparr>clock = (\<lambda>n. 1700000000 + int n),
      ddb_fault = (\<lambda>n. Some ''down''),
      lambda_service = (\<lambda>n name p. Inr \<lparr>statusCode = Some 200, body = Some ''done''\<rparr>),
      get_lab_info = (\<lambda>labID. Inr demo_lab)\<rparr>"

definition flaky_services :: services where
  "flaky_services =
     \<lparr>clock = (\<lambda>n. 1700000000 + int n),
      ddb_fault = (\<lambda>n. if n < 4 then None else Some ''down''),
      lambda_service = (\<lambda>n name p. Inl ''timeout''),
      get_lab_info = (\<lambda>labID. Inr (demo_lab\<lparr>user_ns := False\<rparr>))\<rparr>"

section \<open>Properties of the retry wrapper\<close>

subsection \<open>Unfolding the loop\<close>

text \<open>The attempts of \<^verbatim>\<open>range(1, 6)\<close>, and the first attempts of any non-empty range.\<close>

lemma upto_1_5: "[1..5::int] = [1,2,3,4,5]" by code_simp

lemma upto_from_1: "1 \<le> m \<Longrightarrow> [1..m] = 1 # [2..m]"
  by (simp add: upto.simps)

lemma upto_from_2: "2 \<le> m \<Longrightarrow> [2..m] = 2 # [3..m]"
  by (simp add: upto.simps)

text \<open>One pass through the loop body when the probe answers 403 and 403 is no success.\<close>

lemma attempts_403_step:
  assumes "\<forall>s. status_of (fst (request_fn s)) = Some 403" and "403 \<notin> ok"
  shows "attempts request_fn ok m d (a # rest) le s tr =
     attempts request_fn ok m d rest (Some (AuthNotReady 403 (text_of (fst (request_fn s)))))
       (snd (request_fn s)) (tr @ [Invoked] @ after_attempt a m d)"
proof -
  from assms(1) have "status_of (fst (request_fn s)) = Some 403" by blast
  then obtain t s' where "request_fn s = (Response 403 t, s')"
    by (cases "request_fn s"; cases "fst (request_fn s)") auto
  with assms(2) show ?thesis by simp
qed

text \<open>The loop only ever adds to the trace, and a non-empty loop invokes the probe first.\<close>

lemma attempts_extends_trace:
  "\<exists>tr'. snd (snd (attempts request_fn ok m d as le s tr)) = tr @ tr'"
proof (induction as arbitrary: le s tr)
  case Nil
  show ?case by simp
next
  case (Cons a as)
  show ?case
  proof (cases "request_fn s")
    case (Pair out s')
    show ?thesis
    proof (cases out)
      case (Response c t)
      from Cons[of "Some (AuthNotReady c t)" s' "tr @ [Invoked] @ after_attempt a m d"]
      obtain tr' where "snd (snd (attempts request_fn ok m d as (Some (AuthNotReady c t)) s'
           (tr @ [Invoked] @ after_attempt a m d))) = (tr @ [Invoked] @ after_attempt a m d) @ tr'"
        by blast
      with Pair Response show ?thesis by simp
    next
      case (RequestException e)
      from Cons[of "Some (TransportError e)" s' "tr @ [Invoked] @ after_attempt a m d"]
      obtain tr' where "snd (snd (attempts request_fn ok m d as (Some (TransportError e)) s'
           (tr @ [Invoked] @ after_attempt a m d))) = (tr @ [Invoked] @ after_attempt a m d) @ tr'"
        by blast
      with Pair RequestException show ?thesis by simp
    next
      case (OtherException e)
      with Pair show ?thesis by simp
    qed
  qed
qed

lemma attempts_invokes_first:
  "\<exists>tr'. snd (snd (attempts request_fn ok m d (a # as) le s tr)) = tr @ Invoked # tr'"
proof (cases "request_fn s")
  case (Pair out s')
  show ?thesis
  proof (cases out)
    case (Response c t)
    obtain tr' where "snd (snd (attempts request_fn ok m d as (Some (AuthNotReady c t)) s'
           (tr @ [Invoked] @ after_attempt a m d))) = (tr @ [Invoked] @ after_attempt a m d) @ tr'"
      using attempts_extends_trace[of request_fn ok m d as _ s' "tr @ [Invoked] @ after_attempt a m d"]
      by auto
    with Pair Response show ?thesis by simp
  next
    case (RequestException e)
    obtain tr' where "snd (snd (attempts request_fn ok m d as (Some (TransportError e)) s'
           (tr @ [Invoked] @ after_attempt a m d))) = (tr @ [Invoked] @ after_attempt a m d) @ tr'"
      using attempts_extends_trace[of request_fn ok m d as _ s' "tr @ [Invoked] @ after_attempt a m d"]
      by auto
    with Pair RequestException show ?thesis by simp
  next
    case (OtherException e)
    with Pair show ?thesis by simp
  qed
qed

subsection \<open>Retry bound\<close>

text \<open>
  Claim C3. A probe whose every invocation returns status 403 (403 not being one of the
  success statuses) is invoked exactly 5 times by the wrapper with \<^verbatim>\<open>max_attempts = 5\<close>;
  the wrapper logs and sleeps after each of the first 4 attempts and not after the
  last, so it sleeps exactly 4 times; it then raises the terminal error that wraps the
  last observed result, the 403 response of the fifth invocation.
\<close>

theorem retry_bound_403:
  assumes "\<forall>s. status_of (fst (request_fn s)) = Some 403"
    and "403 \<notin> allowed_successes success_statuses"
  shows "run_with_auth_retry request_fn 5 d success_statuses s0 =
     (Inl (AttemptsExhausted 5
        (Some (AuthNotReady 403 (text_of (fst (request_fn (probe_state request_fn 4 s0))))))),
      probe_state request_fn 5 s0,
      [Invoked, Logged 1 5, Slept d, Invoked, Logged 2 5, Slept d, Invoked, Logged 3 5, Slept d,
       Invoked, Logged 4 5, Slept d, Invoked])
   \<and> invocations (snd (snd (run_with_auth_retry request_fn 5 d success_statuses s0))) = 5
   \<and> sleeps (snd (snd (run_with_auth_retry request_fn 5 d success_statuses s0))) = 4"
proof -
  have run: "run_with_auth_retry request_fn 5 d success_statuses s0 =
     (Inl (AttemptsExhausted 5
        (Some (AuthNotReady 403 (text_of (fst (request_fn (probe_state request_fn 4 s0))))))),
      probe_state request_fn 5 s0,
      [Invoked, Logged 1 5, Slept d, Invoked, Logged 2 5, Slept d, Invoked, Logged 3 5, Slept d,
       Invoked, Logged 4 5, Slept d, Invoked])"
    unfolding run_with_auth_retry_def upto_1_5
    by (simp add: attempts_403_step[OF assms] after_attempt_def probe_state_def
        numeral_eq_Suc del: attempts.simps(2))
  show ?thesis
    unfolding run by (simp add: invocations_def sleeps_def)
qed

text \<open>The theorem at a probe that counts its invocations and always answers 403.\<close>

theorem retry_bound_403_witness:
  "(\<forall>s. status_of (fst ((\<lambda>n::nat. (Response 403 ''Forbidden'', Suc n)) s)) = Some 403)
   \<and> 403 \<notin> allowed_successes None
   \<and> run_with_auth_retry (\<lambda>n::nat. (Response 403 ''Forbidden'', Suc n)) 5 (1::nat) None 0 =
     (Inl (AttemptsExhausted 5 (Some (AuthNotReady 403 ''Forbidden''))), 5,
      [Invoked, Logged 1 5, Slept 1, Invoked, Logged 2 5, Slept 1, Invoked, Logged 3 5, Slept 1,
       Invoked, Logged 4 5, Slept 1, Invoked])"
  using retry_bound_403[of "\<lambda>n::nat. (Response 403 ''Forbidden'', Suc n)" None "1::nat" 0]
  by (simp add: allowed_successes_def probe_state_def numeral_eq_Suc)

subsection \<open>Narrow retryability\<close>

text \<open>
  Claim C4. When the first invocation of the probe returns a status that is neither a
  success status nor 401/403 (500, say), the wrapper raises at once: one invocation, no
  log, no sleep, and none of the remaining attempts. When the first invocation returns
  401 or 403 (not a success status) and more than one attempt is allowed, the wrapper
  instead logs, sleeps and invokes the probe a second time.
\<close>

theorem narrow_retryability:
  assumes "request_fn s0 = (Response c t, s1)"
    and "c \<notin> allowed_successes success_statuses"
    and "1 \<le> max_attempts"
  shows "(c \<notin> {401, 403} \<longrightarrow>
           run_with_auth_retry request_fn max_attempts d success_statuses s0 =
             (Inl (RequestFailed c t), s1, [Invoked]))
       \<and> (c \<in> {401, 403} \<and> 2 \<le> max_attempts \<longrightarrow>
           (\<exists>tr'. snd (snd (run_with_auth_retry request_fn max_attempts d success_statuses s0)) =
              [Invoked, Logged 1 max_attempts, Slept d, Invoked] @ tr'))"
proof (intro conjI impI)
  assume "c \<notin> {401, 403}"
  with assms show "run_with_auth_retry request_fn max_attempts d success_statuses s0 =
             (Inl (RequestFailed c t), s1, [Invoked])"
    by (simp add: run_with_auth_retry_def upto_from_1)
next
  assume c: "c \<in> {401, 403} \<and> 2 \<le> max_attempts"
  obtain tr' where "snd (snd (attempts request_fn (allowed_successes success_statuses) max_attempts d
       (2 # [3..max_attempts]) (Some (AuthNotReady c t)) s1
       [Invoked, Logged 1 max_attempts, Slept d])) =
       [Invoked, Logged 1 max_attempts, Slept d] @ Invoked # tr'"
    using attempts_invokes_first[of request_fn "allowed_successes success_statuses" max_attempts d
        2 "[3..max_attempts]" "Some (AuthNotReady c t)" s1 "[Invoked, Logged 1 max_attempts, Slept d]"]
    by auto
  moreover from assms c
  have "run_with_auth_retry request_fn max_attempts d success_statuses s0 =
     attempts request_fn (allowed_successes success_statuses) max_attempts d
       (2 # [3..max_attempts]) (Some (AuthNotReady c t)) s1
       [Invoked, Logged 1 max_attempts, Slept d]"
    by (auto simp add: run_with_auth_retry_def upto_from_1 upto_from_2 after_attempt_def
        simp del: attempts.simps(2) simp add: attempts.simps(2)[of _ _ _ _ 1])
  ultimately
  show "\<exists>tr'. snd (snd (run_with_auth_retry request_fn max_attempts d success_statuses s0)) =
              [Invoked, Logged 1 max_attempts, Slept d, Invoked] @ tr'"
    by simp
qed

text \<open>The theorem at a probe that always answers 500, and at one that always answers 401.\<close>

theorem narrow_retryability_witness:
  "run_with_auth_retry (\<lambda>n::nat. (Response 500 ''boom'', Suc n)) 5 (1::nat) None 0 =
     (Inl (RequestFailed 500 ''boom''), 1, [Invoked])
   \<and> (\<exists>tr'. snd (snd (run_with_auth_retry (\<lambda>n::nat. (Response 401 ''no'', Suc n)) 5 (1::nat) None 0)) =
        [Invoked, Logged 1 5, Slept 1, Invoked] @ tr')"
  using narrow_retryability[of "\<lambda>n::nat. (Response 500 ''boom'', Suc n)" 0 500 "''boom''" 1 None 5 "1::nat"]
    narrow_retryability[of "\<lambda>n::nat. (Response 401 ''no'', Suc n)" 0 401 "''no''" 1 None 5 "1::nat"]
  by (simp add: allowed_successes_def)

section \<open>Properties of the deployment worker\<close>

subsection \<open>The state store update\<close>

text \<open>What a successful update of the store did, and what made it acceptable.\<close>

lemma update_item_Inr:
  assumes "fst (update_item X key sets w) = Inr ()"
  shows "distinct (map fst sets)" and "''depID'' \<notin> set (map fst sets)"
    and "snd (update_item X key sets w) =
         tick (w\<lparr>table := (table w)(key \<mapsto> apply_sets sets (item_to_update (table w) key))\<rparr>)"
  using assms by (simp_all add: update_item_def split: option.splits if_splits)

lemma update_deployment_state_Inr:
  assumes "fst (update_deployment_state X depID step status details w) = Inr ()"
  shows "fst (update_item X depID (update_expression step status (clock X (ticks w)) details)
                (tick w)) = Inr ()"
    and "snd (update_deployment_state X depID step status details w) =
         (snd (update_item X depID (update_expression step status (clock X (ticks w)) details)
                (tick w)))
         \<lparr>writes := writes w @ [(depID, step, status)]\<rparr>"
  using assms
  by (simp_all add: update_deployment_state_def update_item_def tick_def
      split: prod.splits sum.splits option.splits if_splits)

lemma table_after_update:
  assumes "fst (update_deployment_state X depID step status details w) = Inr ()"
  shows "table (snd (update_deployment_state X depID step status details w)) =
         (table w)(depID \<mapsto>
            apply_sets (update_expression step status (clock X (ticks w)) details)
              (item_to_update (table w) depID))"
    and "step \<noteq> ''updated_at''" and "step \<noteq> ''depID''"
    and "details \<noteq> None \<and> details \<noteq> Some [] \<longrightarrow> step \<noteq> ''details''"
proof -
  note ok = update_deployment_state_Inr[OF assms]
  note item = update_item_Inr[OF ok(1)]
  show "table (snd (update_deployment_state X depID step status details w)) =
         (table w)(depID \<mapsto>
            apply_sets (update_expression step status (clock X (ticks w)) details)
              (item_to_update (table w) depID))"
    unfolding ok(2) item(3) by (simp add: tick_def)
  from item(1) show "step \<noteq> ''updated_at''"
    unfolding update_expression_def by simp
  from item(2) show "step \<noteq> ''depID''"
    unfolding update_expression_def by (cases details) auto
  from item(1) show "details \<noteq> None \<and> details \<noteq> Some [] \<longrightarrow> step \<noteq> ''details''"
    unfolding update_expression_def by (cases details) (simp_all split: if_splits)
qed

lemma apply_sets_details_absent:
  "details = None \<or> details = Some [] \<Longrightarrow>
   apply_sets (update_expression step status ts details) it =
     it(step \<mapsto> S status, ''updated_at'' \<mapsto> N ts)"
  by (auto simp add: update_expression_def)

lemma apply_sets_details_given:
  "d \<noteq> [] \<Longrightarrow>
   apply_sets (update_expression step status ts (Some d)) it =
     it(step \<mapsto> S status, ''updated_at'' \<mapsto> N ts, ''details'' \<mapsto> S d)"
  by (simp add: update_expression_def)

text \<open>
  Claim C8, amended. Every call \<^verbatim>\<open>update_deployment_state(depID, step, status, details)\<close>
  that returns without raising has created the item of \<^verbatim>\<open>depID\<close> when it was absent,
  set the attribute named \<^verbatim>\<open>step\<close> to \<^verbatim>\<open>status\<close>, and set \<^verbatim>\<open>updated_at\<close> to the clock
  read by the call. When \<^verbatim>\<open>details\<close> is a non-empty text the attribute \<^verbatim>\<open>details\<close> is set
  to it, replacing what was there; when \<^verbatim>\<open>details\<close> is \<^verbatim>\<open>None\<close> or empty the attribute
  \<^verbatim>\<open>details\<close> is left as it was. Every other attribute of the item and every other
  item is left as it was.
\<close>

theorem update_deployment_state_sets:
  assumes "fst (update_deployment_state X depID step status details w) = Inr ()"
  shows "attribute_of (snd (update_deployment_state X depID step status details w)) depID step
           = Some (S status)
       \<and> attribute_of (snd (update_deployment_state X depID step status details w)) depID
           ''updated_at'' = Some (N (clock X (ticks w)))
       \<and> (\<forall>d. details = Some d \<and> d \<noteq> [] \<longrightarrow>
            attribute_of (snd (update_deployment_state X depID step status details w)) depID
              ''details'' = Some (S d))
       \<and> (\<forall>name. name \<noteq> step \<and> name \<noteq> ''updated_at'' \<and>
                 (name = ''details'' \<longrightarrow> details = None \<or> details = Some []) \<longrightarrow>
            attribute_of (snd (update_deployment_state X depID step status details w)) depID name
              = item_to_update (table w) depID name)
       \<and> (\<forall>other. other \<noteq> depID \<longrightarrow>
            table (snd (update_deployment_state X depID step status details w)) other
              = table w other)"
proof (cases "details = None \<or> details = Some []")
  case True
  note facts = table_after_update[OF assms]
  have tbl: "table (snd (update_deployment_state X depID step status details w)) =
      (table w)(depID \<mapsto> (item_to_update (table w) depID)
         (step \<mapsto> S status, ''updated_at'' \<mapsto> N (clock X (ticks w))))"
    unfolding facts(1) apply_sets_details_absent[OF True] ..
  from True facts(2) show ?thesis
    unfolding attribute_of_def tbl by auto
next
  case False
  then obtain d where d: "details = Some d" "d \<noteq> []" by auto
  note facts = table_after_update[OF assms]
  have tbl: "table (snd (update_deployment_state X depID step status (Some d) w)) =
      (table w)(depID \<mapsto> (item_to_update (table w) depID)
         (step \<mapsto> S status, ''updated_at'' \<mapsto> N (clock X (ticks w)), ''details'' \<mapsto> S d))"
    using facts(1) unfolding d(1) apply_sets_details_given[OF d(2)] .
  from d facts(2) facts(4) show ?thesis
    unfolding attribute_of_def d(1) tbl by auto
qed

text \<open>The theorem at the first update of a fresh store.\<close>

theorem update_deployment_state_sets_witness:
  "fst (update_deployment_state demo_services ''d1'' ''create_user'' ''SUCCESS'' (Some ''done'')
          fresh_world) = Inr ()
   \<and> attribute_of (snd (update_deployment_state demo_services ''d1'' ''create_user'' ''SUCCESS''
          (Some ''done'') fresh_world)) ''d1'' ''create_user'' = Some (S ''SUCCESS'')
   \<and> attribute_of (snd (update_deployment_state demo_services ''d1'' ''create_user'' ''SUCCESS''
          (Some ''done'') fresh_world)) ''d1'' ''updated_at'' = Some (N 1700000000)
   \<and> attribute_of (snd (update_deployment_state demo_services ''d1'' ''create_user'' ''SUCCESS''
          (Some ''done'') fresh_world)) ''d1'' ''details'' = Some (S ''done'')"
proof -
  have ok: "fst (update_deployment_state demo_services ''d1'' ''create_user'' ''SUCCESS''
          (Some ''done'') fresh_world) = Inr ()"
    by (simp add: update_deployment_state_def update_item_def update_expression_def tick_def
        demo_services_def fresh_world_def)
  from update_deployment_state_sets[OF ok] ok show ?thesis
    by (simp add: demo_services_def fresh_world_def)
qed

text \<open>
  Claim C8 as stated fails on \<^verbatim>\<open>details\<close>. An update with the details \<^verbatim>\<open>"created"\<close> of
  an item whose details are \<^verbatim>\<open>"Creating namespace"\<close> leaves the details \<^verbatim>\<open>"created"\<close>:
  the old text is replaced, nothing is appended. An update of a fresh store that
  provides the empty text as details succeeds and stores no details at all.
\<close>

theorem details_replaced_not_appended:
  "attribute_of (snd (update_deployment_state demo_services ''d1'' ''create_namespace''
      ''SUCCESS'' (Some ''created'') world_with_details)) ''d1'' ''details''
     = Some (S ''created'')
   \<and> fst (update_deployment_state demo_services ''d1'' ''create_namespace'' ''SUCCESS''
      (Some []) fresh_world) = Inr ()
   \<and> attribute_of (snd (update_deployment_state demo_services ''d1'' ''create_namespace''
      ''SUCCESS'' (Some []) fresh_world)) ''d1'' ''details'' = None"
  by (simp add: update_deployment_state_def update_item_def update_expression_def tick_def
      item_to_update_def attribute_of_def demo_services_def fresh_world_def
      world_with_details_def)

subsection \<open>The entry point\<close>

text \<open>The loop passes over a record that is neither an insertion nor a removal.\<close>

lemma handle_records_skip:
  assumes "eventName r = Some name" and "name \<noteq> ''INSERT''" and "name \<noteq> ''REMOVE''"
  shows "handle_records C X (before @ r # rest) w = handle_records C X (before @ rest) w"
proof (induction before arbitrary: w)
  case Nil
  from assms show ?case by simp
next
  case (Cons a before)
  show ?case
    by (simp add: Cons.IH split: option.splits prod.splits sum.splits)
qed

text \<open>
  Claim C10. A record whose \<^verbatim>\<open>eventName\<close> is neither \<^verbatim>\<open>"INSERT"\<close> nor \<^verbatim>\<open>"REMOVE"\<close> is passed
  over: wherever it stands in the batch, the run of \<^verbatim>\<open>lambda_handler\<close> is the run on the
  batch without it, with the same result and the same final world. So no action is
  invoked and nothing is written for it, and the records before and after it are
  processed as they would be without it.
\<close>

theorem other_events_skipped:
  assumes "eventName r = Some name" and "name \<noteq> ''INSERT''" and "name \<noteq> ''REMOVE''"
  shows "lambda_handler C X \<lparr>Records = Some (before @ r # rest)\<rparr> w =
         lambda_handler C X \<lparr>Records = Some (before @ rest)\<rparr> w"
  by (simp add: lambda_handler_def handle_records_skip[OF assms])

text \<open>The theorem at a \<^verbatim>\<open>MODIFY\<close> record between an insertion and a removal.\<close>

theorem other_events_skipped_witness:
  "''MODIFY'' \<noteq> ''INSERT'' \<and> ''MODIFY'' \<noteq> ''REMOVE''
   \<and> lambda_handler demo_config demo_services
        \<lparr>Records = Some ([insert_d1] @ \<lparr>eventName = Some ''MODIFY'', dynamodb = None\<rparr> #
                          [remove_of ''d1''])\<rparr>
        fresh_world
     = lambda_handler demo_config demo_services
        \<lparr>Records = Some ([insert_d1] @ [remove_of ''d1''])\<rparr> fresh_world"
  using other_events_skipped[of "\<lparr>eventName = Some ''MODIFY'', dynamodb = None\<rparr>" "''MODIFY''"
      demo_config demo_services "[insert_d1]" "[remove_of ''d1'']" fresh_world]
  by simp

subsection \<open>Teardown: which actions are invoked\<close>

text \<open>\<open>calls_added\<close> is a preorder that every statement of the worker respects.\<close>

lemma calls_addedI:
  "calls w' = calls w @ cs \<Longrightarrow> list_all (\<lambda>(name, p). P p) cs \<Longrightarrow> calls_added P w w'"
  by (simp add: calls_added_def new_calls_def)

lemma calls_addedD:
  "calls_added P w w' \<Longrightarrow> \<exists>cs. calls w' = calls w @ cs \<and> list_all (\<lambda>(name, p). P p) cs"
  unfolding calls_added_def new_calls_def
  by (metis append_take_drop_id)

lemma calls_added_refl: "calls_added P w w"
  by (simp add: calls_added_def new_calls_def)

lemma calls_added_trans:
  assumes "calls_added P w w1" and "calls_added P w1 w2"
  shows "calls_added P w w2"
proof -
  from calls_addedD[OF assms(1)] obtain cs where cs: "calls w1 = calls w @ cs" "list_all (\<lambda>(name, p). P p) cs"
    by blast
  from calls_addedD[OF assms(2)] obtain ds where ds: "calls w2 = calls w1 @ ds" "list_all (\<lambda>(name, p). P p) ds"
    by blast
  show ?thesis
    by (rule calls_addedI[of _ _ "cs @ ds"]) (simp_all add: cs ds)
qed

lemma then_do_calls:
  assumes "\<And>w. calls_added P w (snd (m w))" and "\<And>a w. calls_added P w (snd (f a w))"
  shows "calls_added P w (snd (then_do m f w))"
proof (cases "m w")
  case (Pair r w1)
  from assms(1)[of w] Pair have 1: "calls_added P w w1" by simp
  show ?thesis
  proof (cases r)
    case (Inl e)
    with Pair 1 show ?thesis by (simp add: then_do_def)
  next
    case (Inr a)
    from assms(2)[of w1 a] have "calls_added P w1 (snd (f a w1))" .
    with 1 have "calls_added P w (snd (f a w1))" by (rule calls_added_trans)
    with Pair Inr show ?thesis by (simp add: then_do_def)
  qed
qed

lemma ret_calls: "calls_added P w (snd (ret a w))"
  by (simp add: ret_def calls_added_refl)

lemma lift_calls: "calls_added P w (snd (lift r w))"
  by (simp add: lift_def calls_added_refl)

text \<open>The store never invokes an action; an invocation adds exactly its own call.\<close>

lemma update_item_calls: "calls (snd (update_item X key sets w)) = calls w"
  by (simp add: update_item_def tick_def split: option.splits)

lemma update_deployment_state_calls:
  "calls (snd (update_deployment_state X depID step status details w)) = calls w"
proof -
  have "calls (snd (update_item X depID (update_expression step status (clock X (ticks w)) details)
          (tick w))) = calls (tick w)"
    by (rule update_item_calls)
  then show ?thesis
    by (cases "update_item X depID (update_expression step status (clock X (ticks w)) details) (tick w)")
       (auto simp add: update_deployment_state_def tick_def split: sum.splits)
qed

lemma update_deployment_state_calls_added:
  "calls_added P w (snd (update_deployment_state X depID step status details w))"
  by (rule calls_addedI[of _ _ "[]"]) (simp_all add: update_deployment_state_calls)

lemma invoke_lambda_calls_added:
  "P payload \<Longrightarrow> calls_added P w (snd (invoke_lambda X name payload w))"
  by (rule calls_addedI[of _ _ "[(name, payload)]"])
     (simp_all add: invoke_lambda_def Let_def tick_def split: sum.splits)

lemma get_item_calls_added: "calls_added P w (snd (get_item X key w))"
  by (rule calls_addedI[of _ _ "[]"]) (simp_all add: get_item_def tick_def split: option.splits)

lemma get_item_found: "get_item X key w = (Inr found, w') \<Longrightarrow> found = table w key"
  by (simp add: get_item_def split: option.splits)

text \<open>The two removals, the failure handler and the teardown built from them.\<close>

lemma remove_user_calls:
  "(\<And>ssm email. P (RemoveUser ssm email)) \<Longrightarrow> calls_added P w (snd (remove_user C X depID it w))"
  unfolding remove_user_def
  by (intro then_do_calls update_deployment_state_calls_added lift_calls ret_calls
      invoke_lambda_calls_added)

lemma remove_namespace_calls:
  "(\<And>ssm name. P (RemoveNamespace ssm name)) \<Longrightarrow>
   calls_added P w (snd (remove_namespace C X depID it w))"
  unfolding remove_namespace_def
  by (intro then_do_calls update_deployment_state_calls_added lift_calls ret_calls
      invoke_lambda_calls_added)

lemma record_failure_calls_added: "calls_added P w (snd (record_failure X field bound e w))"
proof (cases bound)
  case None
  then show ?thesis by (simp add: record_failure_def calls_added_refl)
next
  case (Some depID)
  show ?thesis
  proof (cases "update_deployment_state X depID field ''FAILED'' (Some (str_exn e)) w")
    case (Pair r w1)
    have "calls_added P w (snd (update_deployment_state X depID field ''FAILED'' (Some (str_exn e)) w))"
      by (rule update_deployment_state_calls_added)
    with Pair have "calls_added P w w1" by simp
    with Some Pair show ?thesis by (cases r) (simp_all add: record_failure_def)
  qed
qed

lemma remove_with_item_calls:
  assumes "\<And>ssm email. flag_set (item_or_empty found) ''created_user'' \<Longrightarrow> P (RemoveUser ssm email)"
    and "\<And>ssm name. flag_set (item_or_empty found) ''created_namespace'' \<Longrightarrow>
           P (RemoveNamespace ssm name)"
  shows "calls_added P w (snd (remove_with_item C X depID found w))"
  unfolding remove_with_item_def Let_def
proof (intro then_do_calls update_deployment_state_calls_added)
  fix w
  show "calls_added P w
          (snd ((if flag_set (item_or_empty found) ''created_user''
                 then remove_user C X depID (item_or_empty found) else ret ()) w))"
    using assms(1) by (simp add: remove_user_calls ret_calls)
  show "calls_added P w
          (snd ((if flag_set (item_or_empty found) ''created_namespace''
                 then remove_namespace C X depID (item_or_empty found) else ret ()) w))"
    using assms(2) by (simp add: remove_namespace_calls ret_calls)
qed

lemma remove_steps_calls:
  assumes "\<And>ssm email. flag_set (item_or_empty (table w depID)) ''created_user'' \<Longrightarrow>
             P (RemoveUser ssm email)"
    and "\<And>ssm name. flag_set (item_or_empty (table w depID)) ''created_namespace'' \<Longrightarrow>
           P (RemoveNamespace ssm name)"
  shows "calls_added P w (snd (remove_steps C X depID w))"
proof (cases "get_item X depID w")
  case (Pair r w1)
  have "calls_added P w (snd (get_item X depID w))" by (rule get_item_calls_added)
  with Pair have 1: "calls_added P w w1" by simp
  show ?thesis
  proof (cases r)
    case (Inl e)
    with Pair 1 show ?thesis by (simp add: remove_steps_def then_do_def)
  next
    case (Inr found)
    with Pair have found: "found = table w depID" by (simp add: get_item_found)
    have "calls_added P w1 (snd (remove_with_item C X depID found w1))"
      using assms unfolding found by (rule remove_with_item_calls)
    with 1 have "calls_added P w (snd (remove_with_item C X depID found w1))"
      by (rule calls_added_trans)
    with Pair Inr show ?thesis by (simp add: remove_steps_def then_do_def)
  qed
qed

lemma process_remove_calls:
  assumes "remove_key record = Inr depID"
    and "\<And>ssm email. flag_set (item_or_empty (table w depID)) ''created_user'' \<Longrightarrow>
             P (RemoveUser ssm email)"
    and "\<And>ssm name. flag_set (item_or_empty (table w depID)) ''created_namespace'' \<Longrightarrow>
           P (RemoveNamespace ssm name)"
  shows "calls_added P w (snd (process_remove C X record w))"
proof (cases "remove_steps C X depID w")
  case (Pair r w1)
  have "calls_added P w (snd (remove_steps C X depID w))"
    using assms(2,3) by (rule remove_steps_calls)
  with Pair have 1: "calls_added P w w1" by simp
  show ?thesis
  proof (cases r)
    case (Inl e)
    have "calls_added P w1 (snd (record_failure X ''cleanup_status'' (Some depID) e w1))"
      by (rule record_failure_calls_added)
    with 1 have "calls_added P w (snd (record_failure X ''cleanup_status'' (Some depID) e w1))"
      by (rule calls_added_trans)
    with Pair Inl assms(1) show ?thesis by (simp add: process_remove_def remove_try_def)
  next
    case (Inr u)
    with Pair 1 assms(1) show ?thesis by (simp add: process_remove_def remove_try_def)
  qed
qed

text \<open>
  Claim C5. For a removal event with key \<^verbatim>\<open>depID\<close>: when the stored item (the empty
  dictionary when there is none) does not have \<^verbatim>\<open>created_namespace\<close> equal to the string
  \<^verbatim>\<open>"True"\<close>, no invocation made by \<^verbatim>\<open>process_remove\<close> carries a namespace-removal payload;
  when it does not have \<^verbatim>\<open>created_user\<close> equal to \<^verbatim>\<open>"True"\<close>, none carries a user-removal
  payload. Nothing else of the item is consulted: the step statuses, the services and
  their failures are arbitrary.
\<close>

theorem flags_drive_teardown:
  assumes "remove_key record = Inr depID"
  shows "(item_or_empty (table w depID) ''created_namespace'' \<noteq> Some (S ''True'') \<longrightarrow>
            calls_added (\<lambda>p. \<not> is_remove_namespace p) w (snd (process_remove C X record w)))
       \<and> (item_or_empty (table w depID) ''created_user'' \<noteq> Some (S ''True'') \<longrightarrow>
            calls_added (\<lambda>p. \<not> is_remove_user p) w (snd (process_remove C X record w)))"
proof (intro conjI impI)
  assume "item_or_empty (table w depID) ''created_namespace'' \<noteq> Some (S ''True'')"
  then have off: "\<not> flag_set (item_or_empty (table w depID)) ''created_namespace''"
    by (simp add: flag_set_def)
  show "calls_added (\<lambda>p. \<not> is_remove_namespace p) w (snd (process_remove C X record w))"
    by (rule process_remove_calls[OF assms]) (simp_all add: off)
next
  assume "item_or_empty (table w depID) ''created_user'' \<noteq> Some (S ''True'')"
  then have off: "\<not> flag_set (item_or_empty (table w depID)) ''created_user''"
    by (simp add: flag_set_def)
  show "calls_added (\<lambda>p. \<not> is_remove_user p) w (snd (process_remove C X record w))"
    by (rule process_remove_calls[OF assms]) (simp_all add: off)
qed

text \<open>
  The theorem at an item whose step statuses all say \<^verbatim>\<open>SUCCESS\<close>: with only the user
  flag set the one invocation is the user removal; with only the namespace flag set
  no user removal is invoked.
\<close>

theorem flags_drive_teardown_witness:
  "remove_key (remove_of ''d1'') = Inr ''d1''
   \<and> new_calls (stored_world ''False'' ''True'')
        (snd (process_remove demo_config demo_services (remove_of ''d1'')
               (stored_world ''False'' ''True'')))
       = [(Some ''remove-user'', RemoveUser ''/labs/l1'' ''a@b.com'')]
   \<and> calls_added (\<lambda>p. \<not> is_remove_namespace p) (stored_world ''False'' ''True'')
        (snd (process_remove demo_config demo_services (remove_of ''d1'')
               (stored_world ''False'' ''True'')))
   \<and> calls_added (\<lambda>p. \<not> is_remove_user p) (stored_world ''True'' ''False'')
        (snd (process_remove demo_config demo_services (remove_of ''d1'')
               (stored_world ''True'' ''False'')))"
proof -
  have key: "remove_key (remove_of ''d1'') = Inr ''d1''"
    by (simp add: remove_key_def remove_of_def S_of_def)
  have ns_off: "item_or_empty (table (stored_world ''False'' ''True'') ''d1'') ''created_namespace''
                  \<noteq> Some (S ''True'')"
    by (simp add: stored_world_def item_or_empty_def)
  have user_off: "item_or_empty (table (stored_world ''True'' ''False'') ''d1'') ''created_user''
                  \<noteq> Some (S ''True'')"
    by (simp add: stored_world_def item_or_empty_def)
  have run: "new_calls (stored_world ''False'' ''True'')
        (snd (process_remove demo_config demo_services (remove_of ''d1'')
               (stored_world ''False'' ''True'')))
       = [(Some ''remove-user'', RemoveUser ''/labs/l1'' ''a@b.com'')]"
    by (simp add: process_remove_def remove_try_def key remove_steps_def then_do_def
        get_item_def remove_with_item_def item_or_empty_def flag_set_def ret_def lift_def
        remove_user_def S_of_def invoke_lambda_def update_deployment_state_def update_item_def
        update_expression_def tick_def new_calls_def demo_config_def demo_services_def
        stored_world_def)
  from flags_drive_teardown[OF key, of "stored_world ''False'' ''True''" demo_config demo_services]
    flags_drive_teardown[OF key, of "stored_world ''True'' ''False''" demo_config demo_services]
    key ns_off user_off run
  show ?thesis by simp
qed

subsection \<open>Teardown of an unknown deployment\<close>

text \<open>
  Claim C2, amended. For a removal event whose \<^verbatim>\<open>depID\<close> has no item in the store, and a
  store that does not fail, \<^verbatim>\<open>process_remove\<close> invokes no action and returns without
  raising: the missing item reads as the empty dictionary, both flags are off, and the
  final update creates an item for \<^verbatim>\<open>depID\<close> with \<^verbatim>\<open>cleanup_status\<close> \<^verbatim>\<open>COMPLETED\<close>.
\<close>

theorem remove_unknown_completes:
  assumes "remove_key record = Inr depID" and "table w depID = None"
    and "\<forall>n. ddb_fault X n = None"
  shows "fst (process_remove C X record w) = Inr ()
       \<and> new_calls w (snd (process_remove C X record w)) = []
       \<and> attribute_of (snd (process_remove C X record w)) depID ''depID'' = Some (S depID)
       \<and> attribute_of (snd (process_remove C X record w)) depID ''cleanup_status''
           = Some (S ''COMPLETED'')
       \<and> attribute_of (snd (process_remove C X record w)) depID ''details''
           = Some (S ''Cleanup completed successfully'')"
  using assms
  by (simp add: process_remove_def remove_try_def remove_steps_def then_do_def
      get_item_def remove_with_item_def item_or_empty_def flag_set_def ret_def
      update_deployment_state_def update_item_def update_expression_def tick_def
      new_calls_def attribute_of_def item_to_update_def)

text \<open>The theorem at a removal of \<^verbatim>\<open>ghost\<close> from the empty store.\<close>

theorem remove_unknown_completes_witness:
  "remove_key (remove_of ''ghost'') = Inr ''ghost'' \<and> table fresh_world ''ghost'' = None
   \<and> (\<forall>n. ddb_fault demo_services n = None)
   \<and> fst (process_remove demo_config demo_services (remove_of ''ghost'') fresh_world) = Inr ()
   \<and> new_calls fresh_world
        (snd (process_remove demo_config demo_services (remove_of ''ghost'') fresh_world)) = []
   \<and> attribute_of
        (snd (process_remove demo_config demo_services (remove_of ''ghost'') fresh_world))
        ''ghost'' ''cleanup_status'' = Some (S ''COMPLETED'')"
proof -
  have key: "remove_key (remove_of ''ghost'') = Inr ''ghost''"
    by (simp add: remove_key_def remove_of_def S_of_def)
  have none: "table fresh_world ''ghost'' = None"
    by (simp add: fresh_world_def)
  have ok: "\<forall>n. ddb_fault demo_services n = None"
    by (simp add: demo_services_def)
  from remove_unknown_completes[OF key none ok, of demo_config] key none ok
  show ?thesis by simp
qed

text \<open>
  Claim C2 as stated fails: the removal of \<^verbatim>\<open>ghost\<close> from the empty store does not fail
  with a record-not-found condition but returns normally, and it does write to the
  store, leaving an item for \<^verbatim>\<open>ghost\<close> marked \<^verbatim>\<open>COMPLETED\<close>.
\<close>

theorem unknown_deployment_marked_completed:
  "table fresh_world ''ghost'' = None
   \<and> fst (process_remove demo_config demo_services (remove_of ''ghost'') fresh_world) = Inr ()
   \<and> attribute_of
        (snd (process_remove demo_config demo_services (remove_of ''ghost'') fresh_world))
        ''ghost'' ''cleanup_status'' = Some (S ''COMPLETED'')"
  by (simp add: process_remove_def remove_try_def remove_key_def remove_of_def S_of_def
      remove_steps_def then_do_def get_item_def remove_with_item_def item_or_empty_def
      flag_set_def ret_def update_deployment_state_def update_item_def update_expression_def
      tick_def attribute_of_def item_to_update_def demo_services_def fresh_world_def)

subsection \<open>Provisioning when the store and the transport work\<close>

text \<open>
  With a store that does not fail, an update with one of the worker's step names
  succeeds and its effect is known; an action that answers is invoked once and its
  answer returned.
\<close>

lemma update_deployment_state_no_fault:
  assumes "\<forall>n. ddb_fault X n = None"
    and "step \<noteq> ''depID''" and "step \<noteq> ''updated_at''" and "step \<noteq> ''details''"
  shows "update_deployment_state X depID step status details w =
     (Inr (),
      w\<lparr>table := (table w)(depID \<mapsto>
            apply_sets (update_expression step status (clock X (ticks w)) details)
              (item_to_update (table w) depID)),
        writes := writes w @ [(depID, step, status)],
        ticks := Suc (Suc (ticks w))\<rparr>)"
  using assms
  by (cases details)
     (simp_all add: update_deployment_state_def update_item_def update_expression_def tick_def)

lemma lookup_after_sets:
  "apply_sets (update_expression step status ts details) it name =
     (if name = ''details'' \<and> details \<noteq> None \<and> details \<noteq> Some [] then map_option S details
      else if name = ''updated_at'' then Some (N ts)
      else if name = step then Some (S status)
      else it name)"
  by (cases details) (simp_all add: update_expression_def)

lemma item_to_update_same: "item_to_update (tbl(key \<mapsto> it)) key = it"
  by (simp add: item_to_update_def)

lemma invoke_lambda_reply:
  assumes "\<forall>n. lambda_service X n name payload = Inr r"
  shows "invoke_lambda X name payload w =
     (Inr r, w\<lparr>calls := calls w @ [(name, payload)], ticks := Suc (ticks w)\<rparr>)"
  using assms by (simp add: invoke_lambda_def tick_def)

lemma process_insert_returns:
  "insert_fields record = Inr (depID, labID, email, petname) \<Longrightarrow>
   insert_steps C X depID labID email petname w = (Inr u, w') \<Longrightarrow>
   process_insert C X record w = (Inr (), w')"
  by (simp add: process_insert_def insert_try_def)

text \<open>
  Claim C6. Take an insertion whose fields are all present, with the environment set, a
  lab that asks for a namespace, a store that does not fail, a namespace-creation action
  that answers with a status other than 200 and a user-creation action that answers.
  Then \<^verbatim>\<open>process_insert\<close> returns without raising; the statuses stored for
  \<^verbatim>\<open>create_namespace\<close> are \<^verbatim>\<open>IN_PROGRESS\<close> then \<^verbatim>\<open>FAILED\<close>; the user-creation action is
  invoked all the same, right after the namespace-creation action, with the lab's own
  namespace roles; and the outcome of the user step is stored on its own: \<^verbatim>\<open>IN_PROGRESS\<close>
  then \<^verbatim>\<open>SUCCESS\<close> or \<^verbatim>\<open>FAILED\<close> according to the user action's status alone, with the
  flags \<^verbatim>\<open>created_namespace = "False"\<close> and \<^verbatim>\<open>created_user\<close> to match.
\<close>

theorem namespace_failure_not_fatal:
  assumes "insert_fields record = Inr (depID, labID, email, petname)"
    and "\<not> falsy (CREATE_NAMESPACE_LAMBDA C)" and "\<not> falsy (CREATE_USER_LAMBDA C)"
    and "\<not> falsy (LAB_CONFIGURATION_TABLE C)"
    and "get_lab_info X labID = Inr info" and "user_ns info"
    and "\<forall>n. ddb_fault X n = None"
    and "\<forall>n. lambda_service X n (CREATE_NAMESPACE_LAMBDA C)
               (CreateNamespace (ssm_base_path info) petname (''Namespace for '' @ depID))
             = Inr namespace_response"
    and "statusCode namespace_response \<noteq> Some 200"
    and "\<forall>n. lambda_service X n (CREATE_USER_LAMBDA C)
               (CreateUser (ssm_base_path info) (local_part email) ''User'' email
                  (group_names info) (namespace_roles info))
             = Inr user_response"
  shows "fst (process_insert C X record w) = Inr ()
       \<and> new_calls w (snd (process_insert C X record w)) =
           [(CREATE_NAMESPACE_LAMBDA C,
             CreateNamespace (ssm_base_path info) petname (''Namespace for '' @ depID)),
            (CREATE_USER_LAMBDA C,
             CreateUser (ssm_base_path info) (local_part email) ''User'' email
               (group_names info) (namespace_roles info))]
       \<and> attribute_of (snd (process_insert C X record w)) depID ''create_namespace''
           = Some (S ''FAILED'')
       \<and> attribute_of (snd (process_insert C X record w)) depID ''create_user''
           = Some (S (if statusCode user_response = Some 200 then ''SUCCESS'' else ''FAILED''))
       \<and> attribute_of (snd (process_insert C X record w)) depID ''created_namespace''
           = Some (S ''False'')
       \<and> attribute_of (snd (process_insert C X record w)) depID ''created_user''
           = Some (S (str_bool (statusCode user_response = Some 200)))
       \<and> statuses_written depID ''create_namespace'' w (snd (process_insert C X record w))
           = [''IN_PROGRESS'', ''FAILED'']
       \<and> statuses_written depID ''create_user'' w (snd (process_insert C X record w))
           = [''IN_PROGRESS'',
              if statusCode user_response = Some 200 then ''SUCCESS'' else ''FAILED'']"
proof -
  note store = update_deployment_state_no_fault[OF assms(7)]
  note ns = invoke_lambda_reply[OF assms(8)[simplified]]
  note user = invoke_lambda_reply[OF assms(10)]
  have steps: "insert_steps C X depID labID email petname w =
     (Inr (), snd (insert_steps C X depID labID email petname w))"
    using assms(2-6,9)
    by (simp add: insert_steps_def namespace_step_def user_step_def then_do_def lift_def ret_def
        store ns user)
  have run: "process_insert C X record w =
     (Inr (), snd (insert_steps C X depID labID email petname w))"
    by (rule process_insert_returns[OF assms(1) steps])
  show ?thesis
    unfolding run fst_conv snd_conv
    using assms(2-6,9)
    by (simp add: insert_steps_def namespace_step_def user_step_def then_do_def lift_def ret_def
        store ns user new_calls_def attribute_of_def statuses_written_def statuses_of_def new_writes_def lookup_after_sets
        item_to_update_same str_bool_def)
qed

text \<open>The theorem at a namespace action that answers 409 and a user action that answers 200.\<close>

theorem namespace_failure_not_fatal_witness:
  "insert_fields insert_d1 = Inr (''d1'', ''l1'', ''a@b.com'', ''cow'')
   \<and> fst (process_insert demo_config conflict_services insert_d1 fresh_world) = Inr ()
   \<and> attribute_of (snd (process_insert demo_config conflict_services insert_d1 fresh_world))
        ''d1'' ''create_namespace'' = Some (S ''FAILED'')
   \<and> attribute_of (snd (process_insert demo_config conflict_services insert_d1 fresh_world))
        ''d1'' ''create_user'' = Some (S ''SUCCESS'')
   \<and> attribute_of (snd (process_insert demo_config conflict_services insert_d1 fresh_world))
        ''d1'' ''created_namespace'' = Some (S ''False'')
   \<and> attribute_of (snd (process_insert demo_config conflict_services insert_d1 fresh_world))
        ''d1'' ''created_user'' = Some (S ''True'')"
proof -
  have fields: "insert_fields insert_d1 = Inr (''d1'', ''l1'', ''a@b.com'', ''cow'')"
    by (simp add: insert_fields_def new_image_of_def insert_d1_def S_of_def)
  have env1: "\<not> falsy (CREATE_NAMESPACE_LAMBDA demo_config)"
    and env2: "\<not> falsy (CREATE_USER_LAMBDA demo_config)"
    and env3: "\<not> falsy (LAB_CONFIGURATION_TABLE demo_config)"
    by (simp_all add: falsy_def demo_config_def)
  have lab: "get_lab_info conflict_services ''l1'' = Inr demo_lab"
    by (simp add: conflict_services_def)
  have wants: "user_ns demo_lab"
    by (simp add: demo_lab_def)
  have store: "\<forall>n. ddb_fault conflict_services n = None"
    by (simp add: conflict_services_def)
  have ns: "\<forall>n. lambda_service conflict_services n (CREATE_NAMESPACE_LAMBDA demo_config)
               (CreateNamespace (ssm_base_path demo_lab) ''cow'' (''Namespace for '' @ ''d1''))
             = Inr \<lparr>statusCode = Some 409, body = Some ''exists''\<rparr>"
    by (simp add: conflict_services_def)
  have failed: "statusCode \<lparr>statusCode = Some 409, body = Some ''exists''\<rparr> \<noteq> Some 200"
    by simp
  have user: "\<forall>n. lambda_service conflict_services n (CREATE_USER_LAMBDA demo_config)
               (CreateUser (ssm_base_path demo_lab) (local_part ''a@b.com'') ''User'' ''a@b.com''
                  (group_names demo_lab) (namespace_roles demo_lab))
             = Inr \<lparr>statusCode = Some 200, body = Some ''done''\<rparr>"
    by (simp add: conflict_services_def)
  from namespace_failure_not_fatal[OF fields env1 env2 env3 lab wants store ns failed user,
      of fresh_world] fields
  show ?thesis by (simp add: str_bool_def)
qed

subsection \<open>End-to-end scenario A\<close>

text \<open>
  When both actions answer 200 (and the store does not fail), the run returns, both
  steps are stored as \<^verbatim>\<open>SUCCESS\<close> and both flags as \<^verbatim>\<open>"True"\<close>. The only status ever
  stored for \<^verbatim>\<open>deployment_status\<close> is the \<^verbatim>\<open>IN_PROGRESS\<close> of the first statement, and it is
  what the item holds at the end.
\<close>

lemma both_actions_succeed:
  assumes "insert_fields record = Inr (depID, labID, email, petname)"
    and "\<not> falsy (CREATE_NAMESPACE_LAMBDA C)" and "\<not> falsy (CREATE_USER_LAMBDA C)"
    and "\<not> falsy (LAB_CONFIGURATION_TABLE C)"
    and "get_lab_info X labID = Inr info" and "user_ns info"
    and "\<forall>n. ddb_fault X n = None"
    and "\<forall>n. lambda_service X n (CREATE_NAMESPACE_LAMBDA C)
               (CreateNamespace (ssm_base_path info) petname (''Namespace for '' @ depID))
             = Inr namespace_response"
    and "statusCode namespace_response = Some 200"
    and "\<forall>n. lambda_service X n (CREATE_USER_LAMBDA C)
               (CreateUser (ssm_base_path info) (local_part email) ''User'' email
                  (group_names info) (namespace_roles info @ [(petname, ''ves-io-admin'')]))
             = Inr user_response"
    and "statusCode user_response = Some 200"
  shows "fst (process_insert C X record w) = Inr ()
       \<and> attribute_of (snd (process_insert C X record w)) depID ''created_namespace''
           = Some (S ''True'')
       \<and> attribute_of (snd (process_insert C X record w)) depID ''created_user''
           = Some (S ''True'')
       \<and> attribute_of (snd (process_insert C X record w)) depID ''create_namespace''
           = Some (S ''SUCCESS'')
       \<and> attribute_of (snd (process_insert C X record w)) depID ''create_user''
           = Some (S ''SUCCESS'')
       \<and> attribute_of (snd (process_insert C X record w)) depID ''deployment_status''
           = Some (S ''IN_PROGRESS'')
       \<and> statuses_written depID ''deployment_status'' w (snd (process_insert C X record w))
           = [''IN_PROGRESS'']"
proof -
  note store = update_deployment_state_no_fault[OF assms(7)]
  note ns = invoke_lambda_reply[OF assms(8)[simplified]]
  note user = invoke_lambda_reply[OF assms(10)]
  have steps: "insert_steps C X depID labID email petname w =
     (Inr (), snd (insert_steps C X depID labID email petname w))"
    using assms(2-6,9,11)
    by (simp add: insert_steps_def namespace_step_def user_step_def then_do_def lift_def ret_def
        store ns user)
  have run: "process_insert C X record w =
     (Inr (), snd (insert_steps C X depID labID email petname w))"
    by (rule process_insert_returns[OF assms(1) steps])
  show ?thesis
    unfolding run fst_conv snd_conv
    using assms(2-6,9,11)
    by (simp add: insert_steps_def namespace_step_def user_step_def then_do_def lift_def ret_def
        store ns user attribute_of_def statuses_written_def statuses_of_def new_writes_def lookup_after_sets
        item_to_update_same str_bool_def)
qed

text \<open>
  Claim C1, at its own scenario: the insertion of
  \<^verbatim>\<open>{depID: "d1", labID: "l1", email: "a@b.com", petname: "cow"}\<close> into an empty store, the
  lab asking for a namespace, both actions answering 200. The final item has
  \<^verbatim>\<open>created_namespace = "True"\<close>, \<^verbatim>\<open>created_user = "True"\<close> and no step marked \<^verbatim>\<open>FAILED\<close>,
  as the claim says; but its \<^verbatim>\<open>deployment_status\<close> is still \<^verbatim>\<open>IN_PROGRESS\<close>, the only status
  \<^verbatim>\<open>process_insert\<close> stores on this path, where the claim requires a status that
  reflects completion (as \<^verbatim>\<open>process_remove\<close> stores \<^verbatim>\<open>COMPLETED\<close> for its own workflow).
\<close>

theorem scenario_A_left_in_progress:
  "fst (process_insert demo_config demo_services insert_d1 fresh_world) = Inr ()
   \<and> attribute_of (snd (process_insert demo_config demo_services insert_d1 fresh_world))
        ''d1'' ''created_namespace'' = Some (S ''True'')
   \<and> attribute_of (snd (process_insert demo_config demo_services insert_d1 fresh_world))
        ''d1'' ''created_user'' = Some (S ''True'')
   \<and> attribute_of (snd (process_insert demo_config demo_services insert_d1 fresh_world))
        ''d1'' ''create_namespace'' = Some (S ''SUCCESS'')
   \<and> attribute_of (snd (process_insert demo_config demo_services insert_d1 fresh_world))
        ''d1'' ''create_user'' = Some (S ''SUCCESS'')
   \<and> attribute_of (snd (process_insert demo_config demo_services insert_d1 fresh_world))
        ''d1'' ''deployment_status'' = Some (S ''IN_PROGRESS'')
   \<and> statuses_written ''d1'' ''deployment_status'' fresh_world
        (snd (process_insert demo_config demo_services insert_d1 fresh_world))
       = [''IN_PROGRESS'']"
proof -
  have fields: "insert_fields insert_d1 = Inr (''d1'', ''l1'', ''a@b.com'', ''cow'')"
    by (simp add: insert_fields_def new_image_of_def insert_d1_def S_of_def)
  have env1: "\<not> falsy (CREATE_NAMESPACE_LAMBDA demo_config)"
    and env2: "\<not> falsy (CREATE_USER_LAMBDA demo_config)"
    and env3: "\<not> falsy (LAB_CONFIGURATION_TABLE demo_config)"
    by (simp_all add: falsy_def demo_config_def)
  have lab: "get_lab_info demo_services ''l1'' = Inr demo_lab"
    by (simp add: demo_services_def)
  have wants: "user_ns demo_lab"
    by (simp add: demo_lab_def)
  have store: "\<forall>n. ddb_fault demo_services n = None"
    by (simp add: demo_services_def)
  have ns: "\<forall>n. lambda_service demo_services n (CREATE_NAMESPACE_LAMBDA demo_config)
               (CreateNamespace (ssm_base_path demo_lab) ''cow'' (''Namespace for '' @ ''d1''))
             = Inr \<lparr>statusCode = Some 200, body = Some ''done''\<rparr>"
    by (simp add: demo_services_def)
  have ok: "statusCode \<lparr>statusCode = Some 200, body = Some ''done''\<rparr> = Some 200"
    by simp
  have user: "\<forall>n. lambda_service demo_services n (CREATE_USER_LAMBDA demo_config)
               (CreateUser (ssm_base_path demo_lab) (local_part ''a@b.com'') ''User'' ''a@b.com''
                  (group_names demo_lab) (namespace_roles demo_lab @ [(''cow'', ''ves-io-admin'')]))
             = Inr \<lparr>statusCode = Some 200, body = Some ''done''\<rparr>"
    by (simp add: demo_services_def)
  from both_actions_succeed[OF fields env1 env2 env3 lab wants store ns ok user ok, of fresh_world]
  show ?thesis .
qed

subsection \<open>Errors during provisioning\<close>

text \<open>
  The \<^verbatim>\<open>except\<close> clause of \<^verbatim>\<open>process_insert\<close>: what it does when its own update of the
  store succeeds, and when it fails.
\<close>

lemma update_deployment_state_Inl_table:
  assumes "fst (update_deployment_state X depID step status details w) = Inl e"
  shows "table (snd (update_deployment_state X depID step status details w)) = table w"
  using assms
  by (auto simp add: update_deployment_state_def update_item_def tick_def
      split: prod.splits sum.splits option.splits if_splits)

lemma process_insert_handler:
  assumes "insert_try C X record w = (Inl (bound, e), w1)"
  shows "process_insert C X record w = record_failure X ''deployment_status'' bound e w1"
  using assms by (simp add: process_insert_def)

lemma record_failure_recorded:
  assumes "fst (update_deployment_state X depID field ''FAILED'' (Some (str_exn e)) w) = Inr ()"
  shows "record_failure X field (Some depID) e w =
         (Inl e, snd (update_deployment_state X depID field ''FAILED'' (Some (str_exn e)) w))"
  using assms
  by (cases "update_deployment_state X depID field ''FAILED'' (Some (str_exn e)) w")
     (simp add: record_failure_def)

lemma record_failure_not_recorded:
  assumes "fst (update_deployment_state X depID field ''FAILED'' (Some (str_exn e)) w) = Inl e'"
  shows "record_failure X field (Some depID) e w =
         (Inl e', snd (update_deployment_state X depID field ''FAILED'' (Some (str_exn e)) w))"
  using assms
  by (cases "update_deployment_state X depID field ''FAILED'' (Some (str_exn e)) w")
     (simp add: record_failure_def)

lemma failed_status_stored:
  assumes "fst (update_deployment_state X depID field ''FAILED'' (Some txt) w) = Inr ()"
  shows "attribute_of (snd (update_deployment_state X depID field ''FAILED'' (Some txt) w))
           depID field = Some (S ''FAILED'')"
    and "txt \<noteq> [] \<Longrightarrow>
         attribute_of (snd (update_deployment_state X depID field ''FAILED'' (Some txt) w))
           depID ''details'' = Some (S txt)"
proof -
  note facts = table_after_update[OF assms]
  show "attribute_of (snd (update_deployment_state X depID field ''FAILED'' (Some txt) w))
           depID field = Some (S ''FAILED'')"
    using facts(2,4) by (auto simp add: attribute_of_def facts(1) lookup_after_sets)
  show "attribute_of (snd (update_deployment_state X depID field ''FAILED'' (Some txt) w))
           depID ''details'' = Some (S txt)" if "txt \<noteq> []"
    using that by (simp add: attribute_of_def facts(1) lookup_after_sets)
qed

text \<open>
  Claim C7, amended. Take any error \<open>e\<close> raised in the \<^verbatim>\<open>try\<close> block of \<^verbatim>\<open>process_insert\<close>
  once \<^verbatim>\<open>depID\<close> is bound: a missing later field, a missing environment variable, a
  failure of \<^verbatim>\<open>get_lab_info\<close>, of the transport or of the store. It is caught by the one
  handler. When the handler's update of the store succeeds, the item of \<^verbatim>\<open>depID\<close> has
  \<^verbatim>\<open>deployment_status = FAILED\<close> and, the text of the error being non-empty, that text as
  \<^verbatim>\<open>details\<close>, and \<open>e\<close> itself is raised again. When the handler's update fails, the
  error of that update is raised instead and the table is left as the \<^verbatim>\<open>try\<close> block
  left it. (Nothing is said here of an error raised before \<^verbatim>\<open>depID\<close> is bound.)
\<close>

theorem insert_failure_recorded:
  assumes "insert_try C X record w = (Inl (Some depID, e), w1)"
  shows "(fst (update_deployment_state X depID ''deployment_status'' ''FAILED''
                 (Some (str_exn e)) w1) = Inr () \<longrightarrow>
            fst (process_insert C X record w) = Inl e
          \<and> attribute_of (snd (process_insert C X record w)) depID ''deployment_status''
              = Some (S ''FAILED'')
          \<and> (str_exn e \<noteq> [] \<longrightarrow>
               attribute_of (snd (process_insert C X record w)) depID ''details''
                 = Some (S (str_exn e))))
       \<and> (\<forall>e'. fst (update_deployment_state X depID ''deployment_status'' ''FAILED''
                     (Some (str_exn e)) w1) = Inl e' \<longrightarrow>
            fst (process_insert C X record w) = Inl e'
          \<and> table (snd (process_insert C X record w)) = table w1)"
proof (intro conjI impI allI)
  assume ok: "fst (update_deployment_state X depID ''deployment_status'' ''FAILED''
                 (Some (str_exn e)) w1) = Inr ()"
  note run = process_insert_handler[OF assms] record_failure_recorded[OF ok]
  show "fst (process_insert C X record w) = Inl e"
    by (simp add: run)
  show "attribute_of (snd (process_insert C X record w)) depID ''deployment_status''
              = Some (S ''FAILED'')"
    by (simp add: run failed_status_stored(1)[OF ok])
  show "attribute_of (snd (process_insert C X record w)) depID ''details''
                 = Some (S (str_exn e))" if "str_exn e \<noteq> []"
    by (simp add: run failed_status_stored(2)[OF ok that])
next
  fix e'
  assume bad: "fst (update_deployment_state X depID ''deployment_status'' ''FAILED''
                     (Some (str_exn e)) w1) = Inl e'"
  note run = process_insert_handler[OF assms] record_failure_not_recorded[OF bad]
  show "fst (process_insert C X record w) = Inl e'"
    by (simp add: run)
  show "table (snd (process_insert C X record w)) = table w1"
    by (simp add: run update_deployment_state_Inl_table[OF bad])
qed

text \<open>
  The theorem at a record that lacks \<^verbatim>\<open>labID\<close>, once with a store that works and once
  with a store that is down.
\<close>

theorem insert_failure_recorded_witness:
  "insert_try demo_config demo_services insert_without_lab fresh_world
     = (Inl (Some ''d1'', KeyError ''labID''), fresh_world)
   \<and> fst (process_insert demo_config demo_services insert_without_lab fresh_world)
       = Inl (KeyError ''labID'')
   \<and> attribute_of (snd (process_insert demo_config demo_services insert_without_lab fresh_world))
        ''d1'' ''deployment_status'' = Some (S ''FAILED'')
   \<and> attribute_of (snd (process_insert demo_config demo_services insert_without_lab fresh_world))
        ''d1'' ''details'' = Some (S (str_exn (KeyError ''labID'')))
   \<and> fst (process_insert demo_config down_services insert_without_lab fresh_world)
       = Inl (RuntimeError ''Failed to update deployment state in DynamoDB: down'')
   \<and> table (snd (process_insert demo_config down_services insert_without_lab fresh_world))
       = table fresh_world"
proof -
  have fields: "insert_fields insert_without_lab = Inl (Some ''d1'', KeyError ''labID'')"
    by (simp add: insert_fields_def new_image_of_def insert_without_lab_def S_of_def)
  have try_up: "insert_try demo_config demo_services insert_without_lab fresh_world
     = (Inl (Some ''d1'', KeyError ''labID''), fresh_world)"
    by (simp add: insert_try_def fields)
  have try_down: "insert_try demo_config down_services insert_without_lab fresh_world
     = (Inl (Some ''d1'', KeyError ''labID''), fresh_world)"
    by (simp add: insert_try_def fields)
  have ok: "fst (update_deployment_state demo_services ''d1'' ''deployment_status'' ''FAILED''
                   (Some (str_exn (KeyError ''labID''))) fresh_world) = Inr ()"
    by (simp add: update_deployment_state_def update_item_def update_expression_def tick_def
        quote_def demo_services_def fresh_world_def)
  have bad: "fst (update_deployment_state down_services ''d1'' ''deployment_status'' ''FAILED''
                   (Some (str_exn (KeyError ''labID''))) fresh_world)
             = Inl (RuntimeError ''Failed to update deployment state in DynamoDB: down'')"
    by (simp add: update_deployment_state_def update_item_def tick_def
        down_services_def fresh_world_def)
  have nonempty: "str_exn (KeyError ''labID'') \<noteq> []"
    by (simp add: quote_def)
  from insert_failure_recorded[OF try_up] insert_failure_recorded[OF try_down]
    try_up ok bad nonempty
  show ?thesis by simp
qed

text \<open>
  Claim C7 as stated fails in two ways. With a store that goes down after the first
  two updates and a user action that cannot be reached, the transport error is caught,
  but the handler's update fails: the error that leaves \<^verbatim>\<open>process_insert\<close> is the one
  of the store, not the one that was caught, and the item still says \<^verbatim>\<open>IN_PROGRESS\<close>.
  With a record that lacks \<^verbatim>\<open>depID\<close>, the \<^verbatim>\<open>KeyError\<close> is caught while \<^verbatim>\<open>depID\<close> is
  unbound: the handler raises \<^verbatim>\<open>UnboundLocalError\<close> in its place and stores nothing.
\<close>

theorem insert_failure_not_recorded:
  "fst (insert_try demo_config flaky_services insert_d1 fresh_world)
     = Inl (Some ''d1'',
            RuntimeError (''Failed to invoke Lambda '' @ quote @ ''create-user'' @ quote @
                          '': timeout''))
   \<and> fst (process_insert demo_config flaky_services insert_d1 fresh_world)
       = Inl (RuntimeError ''Failed to update deployment state in DynamoDB: down'')
   \<and> attribute_of (snd (process_insert demo_config flaky_services insert_d1 fresh_world))
        ''d1'' ''deployment_status'' = Some (S ''IN_PROGRESS'')
   \<and> fst (insert_try demo_config demo_services insert_without_depID fresh_world)
       = Inl (None, KeyError ''depID'')
   \<and> fst (process_insert demo_config demo_services insert_without_depID fresh_world)
       = Inl (UnboundLocalError ''depID'')
   \<and> writes (snd (process_insert demo_config demo_services insert_without_depID fresh_world))
       = []"
proof -
  have fields: "insert_fields insert_d1 = Inr (''d1'', ''l1'', ''a@b.com'', ''cow'')"
    by (simp add: insert_fields_def new_image_of_def insert_d1_def S_of_def)
  have flaky: "insert_try demo_config flaky_services insert_d1 fresh_world
     = (Inl (Some ''d1'',
            RuntimeError (''Failed to invoke Lambda '' @ quote @ ''create-user'' @ quote @
                          '': timeout'')),
        snd (insert_try demo_config flaky_services insert_d1 fresh_world))"
    by (simp add: insert_try_def fields insert_steps_def namespace_step_def user_step_def
        then_do_def lift_def ret_def falsy_def invoke_lambda_def str_opt_def
        update_deployment_state_def update_item_def update_expression_def tick_def
        demo_config_def flaky_services_def fresh_world_def)
  have handled: "process_insert demo_config flaky_services insert_d1 fresh_world
     = record_failure flaky_services ''deployment_status'' (Some ''d1'')
         (RuntimeError (''Failed to invoke Lambda '' @ quote @ ''create-user'' @ quote @
                        '': timeout''))
         (snd (insert_try demo_config flaky_services insert_d1 fresh_world))"
    by (rule process_insert_handler[OF flaky])
  have missing: "insert_fields insert_without_depID = Inl (None, KeyError ''depID'')"
    by (simp add: insert_fields_def new_image_of_def insert_without_depID_def S_of_def)
  have unbound: "process_insert demo_config demo_services insert_without_depID fresh_world
     = (Inl (UnboundLocalError ''depID''), fresh_world)"
    by (simp add: process_insert_def insert_try_def missing record_failure_def)
  have raised: "fst (process_insert demo_config flaky_services insert_d1 fresh_world)
       = Inl (RuntimeError ''Failed to update deployment state in DynamoDB: down'')"
    unfolding handled
    by (simp add: record_failure_def insert_try_def fields insert_steps_def namespace_step_def
        user_step_def then_do_def lift_def ret_def falsy_def invoke_lambda_def str_opt_def
        update_deployment_state_def update_item_def update_expression_def tick_def
        demo_config_def flaky_services_def fresh_world_def)
  have left: "attribute_of (snd (process_insert demo_config flaky_services insert_d1 fresh_world))
        ''d1'' ''deployment_status'' = Some (S ''IN_PROGRESS'')"
    unfolding handled
    by (simp add: record_failure_def insert_try_def fields insert_steps_def namespace_step_def
        user_step_def then_do_def lift_def ret_def falsy_def invoke_lambda_def str_opt_def
        update_deployment_state_def update_item_def update_expression_def tick_def
        attribute_of_def item_to_update_def
        demo_config_def flaky_services_def fresh_world_def)
  have caught: "fst (insert_try demo_config flaky_services insert_d1 fresh_world)
     = Inl (Some ''d1'',
            RuntimeError (''Failed to invoke Lambda '' @ quote @ ''create-user'' @ quote @
                          '': timeout''))"
    using arg_cong[OF flaky, of fst] by simp
  have caught_unbound: "fst (insert_try demo_config demo_services insert_without_depID fresh_world)
       = Inl (None, KeyError ''depID'')"
    by (simp add: insert_try_def missing)
  have raised_unbound:
    "fst (process_insert demo_config demo_services insert_without_depID fresh_world)
       = Inl (UnboundLocalError ''depID'')"
    by (simp add: unbound)
  have nothing_stored:
    "writes (snd (process_insert demo_config demo_services insert_without_depID fresh_world)) = []"
    unfolding unbound by (simp add: fresh_world_def)
  show ?thesis
    by (intro conjI caught raised left caught_unbound raised_unbound nothing_stored)
qed

subsection \<open>The history of step statuses\<close>

text \<open>Selecting the statuses of a step distributes over the writes of consecutive statements.\<close>

lemma statuses_of_append:
  "statuses_of d s (a @ b) = statuses_of d s a @ statuses_of d s b"
  by (simp add: statuses_of_def)

lemma statuses_of_absent:
  assumes "\<forall>(d', s', v) \<in> set ws. s' \<in> T" and "s \<notin> T"
  shows "statuses_of d s ws = []"
  using assms by (auto simp add: statuses_of_def filter_empty_conv)

text \<open>An update adds its own write when it succeeds and none when it fails; an invocation adds none.\<close>

lemma update_deployment_state_writes:
  "update_deployment_state X d s v det w = (r, w') \<Longrightarrow>
   writes w' = writes w @ (case r of Inl e \<Rightarrow> [] | Inr u \<Rightarrow> [(d, s, v)])"
  by (auto simp add: update_deployment_state_def update_item_def tick_def
      split: prod.splits sum.splits option.splits if_splits)

lemma invoke_lambda_writes:
  "invoke_lambda X name p w = (r, w') \<Longrightarrow> writes w' = writes w"
  by (auto simp add: invoke_lambda_def Let_def tick_def split: sum.splits)

text \<open>\<open>stores_only\<close>: statements that store under disjoint step names compose.\<close>

lemma stores_onlyI:
  assumes "\<And>w. \<exists>ws. writes (snd (m w)) = writes w @ ws \<and>
                (\<forall>(d, s, v) \<in> set ws. s \<in> T) \<and>
                (\<forall>d s. only_forward (statuses_of d s ws))"
  shows "stores_only T m"
  using assms unfolding stores_only_def by blast

lemma stores_onlyD:
  assumes "stores_only T m"
  shows "\<exists>ws. writes (snd (m w)) = writes w @ ws \<and>
              (\<forall>(d, s, v) \<in> set ws. s \<in> T) \<and>
              (\<forall>d s. only_forward (statuses_of d s ws))"
  using assms unfolding stores_only_def by blast

lemma stores_only_then_do:
  assumes "stores_only T1 m" and "\<And>x. stores_only T2 (f x)" and "T1 \<inter> T2 = {}"
  shows "stores_only (T1 \<union> T2) (then_do m f)"
proof (rule stores_onlyI)
  fix w
  obtain a where a: "writes (snd (m w)) = writes w @ a" "\<forall>(d, s, v) \<in> set a. s \<in> T1"
    "\<forall>d s. only_forward (statuses_of d s a)"
    using stores_onlyD[OF assms(1), of w] by blast
  show "\<exists>ws. writes (snd (then_do m f w)) = writes w @ ws \<and>
                (\<forall>(d, s, v) \<in> set ws. s \<in> T1 \<union> T2) \<and>
                (\<forall>d s. only_forward (statuses_of d s ws))"
  proof (cases "m w")
    case (Pair r w1)
    show ?thesis
    proof (cases r)
      case (Inl e)
      with Pair a have "writes (snd (then_do m f w)) = writes w @ a"
        by (simp add: then_do_def)
      moreover from a(2) have "\<forall>(d, s, v) \<in> set a. s \<in> T1 \<union> T2" by auto
      ultimately show ?thesis using a(3) by blast
    next
      case (Inr x)
      obtain b where b: "writes (snd (f x w1)) = writes w1 @ b" "\<forall>(d, s, v) \<in> set b. s \<in> T2"
        "\<forall>d s. only_forward (statuses_of d s b)"
        using stores_onlyD[OF assms(2), of x w1] by blast
      from Pair Inr a b have 1: "writes (snd (then_do m f w)) = writes w @ (a @ b)"
        by (simp add: then_do_def)
      from a(2) b(2) have 2: "\<forall>(d, s, v) \<in> set (a @ b). s \<in> T1 \<union> T2" by auto
      have 3: "only_forward (statuses_of d s (a @ b))" for d s
      proof (cases "s \<in> T1")
        case True
        with assms(3) have "s \<notin> T2" by auto
        with b(2) have "statuses_of d s b = []" by (rule statuses_of_absent)
        then show ?thesis by (simp add: statuses_of_append a(3))
      next
        case False
        with a(2) have "statuses_of d s a = []" by (rule statuses_of_absent)
        then show ?thesis by (simp add: statuses_of_append b(3))
      qed
      from 1 2 3 show ?thesis by blast
    qed
  qed
qed

lemma stores_only_nothing:
  assumes "\<And>w. writes (snd (m w)) = writes w"
  shows "stores_only {} m"
  by (rule stores_onlyI) (simp add: assms statuses_of_def)

lemma stores_only_ret: "stores_only {} (ret a)"
  by (rule stores_only_nothing) (simp add: ret_def)

lemma stores_only_lift: "stores_only {} (lift r)"
  by (rule stores_only_nothing) (simp add: lift_def)

lemma stores_only_update: "stores_only {s} (update_deployment_state X d s v det)"
proof (rule stores_onlyI)
  fix w
  obtain r w' where run: "update_deployment_state X d s v det w = (r, w')"
    by (cases "update_deployment_state X d s v det w")
  from update_deployment_state_writes[OF run] run
  have "writes (snd (update_deployment_state X d s v det w)) =
        writes w @ (case r of Inl e \<Rightarrow> [] | Inr u \<Rightarrow> [(d, s, v)])"
    by simp
  moreover have "\<forall>(d', s', v') \<in> set (case r of Inl e \<Rightarrow> [] | Inr u \<Rightarrow> [(d, s, v)]). s' \<in> {s}"
    by (cases r) simp_all
  moreover have "only_forward (statuses_of d' s' (case r of Inl e \<Rightarrow> [] | Inr u \<Rightarrow> [(d, s, v)]))"
    for d' s'
    by (cases r) (simp_all add: statuses_of_def)
  ultimately show "\<exists>ws. writes (snd (update_deployment_state X d s v det w)) = writes w @ ws \<and>
                (\<forall>(d, s', v) \<in> set ws. s' \<in> {s}) \<and>
                (\<forall>d s. only_forward (statuses_of d s ws))"
    by blast
qed


text \<open>A step of the workflow stores \<^verbatim>\<open>IN_PROGRESS\<close> and then, at most once, \<^verbatim>\<open>SUCCESS\<close> or \<^verbatim>\<open>FAILED\<close>.\<close>

lemma finish_step_writes:
  "\<exists>ws. writes (snd (then_do (invoke_lambda X name p)
                 (\<lambda>r. if statusCode r = Some 200
                      then then_do (update_deployment_state X d s ''SUCCESS'' (body r)) (\<lambda>_. ret a)
                      else then_do (update_deployment_state X d s ''FAILED'' (body r)) (\<lambda>_. ret b))
                 w)) = writes w @ ws \<and>
        (ws = [] \<or> ws = [(d, s, ''SUCCESS'')] \<or> ws = [(d, s, ''FAILED'')])"
proof (cases "invoke_lambda X name p w")
  case (Pair r w1)
  note same = invoke_lambda_writes[OF Pair]
  show ?thesis
  proof (cases r)
    case (Inl e)
    with Pair same show ?thesis by (simp add: then_do_def)
  next
    case (Inr reply)
    show ?thesis
    proof (cases "statusCode reply = Some 200")
      case True
      obtain r2 w2 where run: "update_deployment_state X d s ''SUCCESS'' (body reply) w1 = (r2, w2)"
        by (cases "update_deployment_state X d s ''SUCCESS'' (body reply) w1")
      from update_deployment_state_writes[OF run] Pair Inr True run same show ?thesis
        by (cases r2) (simp_all add: then_do_def ret_def)
    next
      case False
      obtain r2 w2 where run: "update_deployment_state X d s ''FAILED'' (body reply) w1 = (r2, w2)"
        by (cases "update_deployment_state X d s ''FAILED'' (body reply) w1")
      from update_deployment_state_writes[OF run] Pair Inr False run same show ?thesis
        by (cases r2) (simp_all add: then_do_def ret_def)
    qed
  qed
qed

lemma statuses_of_step:
  "ws = [] \<or> ws = [(d, s, ''IN_PROGRESS'')] \<or>
   ws = [(d, s, ''IN_PROGRESS''), (d, s, ''SUCCESS'')] \<or>
   ws = [(d, s, ''IN_PROGRESS''), (d, s, ''FAILED'')] \<Longrightarrow>
   only_forward (statuses_of d' s' ws)"
  by (auto simp add: statuses_of_def forward_def)

lemma stores_only_step:
  assumes "\<And>w. \<exists>ws. writes (snd (finish w)) = writes w @ ws \<and>
             (ws = [] \<or> ws = [(d, s, ''SUCCESS'')] \<or> ws = [(d, s, ''FAILED'')])"
  shows "stores_only {s}
           (then_do (update_deployment_state X d s ''IN_PROGRESS'' det) (\<lambda>_. finish))"
proof (rule stores_onlyI)
  fix w
  obtain r w1 where run: "update_deployment_state X d s ''IN_PROGRESS'' det w = (r, w1)"
    by (cases "update_deployment_state X d s ''IN_PROGRESS'' det w")
  note first = update_deployment_state_writes[OF run]
  have "\<exists>ws. writes (snd (then_do (update_deployment_state X d s ''IN_PROGRESS'' det)
                 (\<lambda>_. finish) w)) = writes w @ ws \<and>
          (ws = [] \<or> ws = [(d, s, ''IN_PROGRESS'')] \<or>
           ws = [(d, s, ''IN_PROGRESS''), (d, s, ''SUCCESS'')] \<or>
           ws = [(d, s, ''IN_PROGRESS''), (d, s, ''FAILED'')])"
  proof (cases r)
    case (Inl e)
    with run first show ?thesis by (simp add: then_do_def)
  next
    case (Inr u)
    from assms[of w1] obtain b where b: "writes (snd (finish w1)) = writes w1 @ b"
      "b = [] \<or> b = [(d, s, ''SUCCESS'')] \<or> b = [(d, s, ''FAILED'')]"
      by blast
    from run Inr first b(1) have "writes (snd (then_do (update_deployment_state X d s
        ''IN_PROGRESS'' det) (\<lambda>_. finish) w)) = writes w @ ((d, s, ''IN_PROGRESS'') # b)"
      by (simp add: then_do_def)
    with b(2) show ?thesis by auto
  qed
  then obtain ws where ws: "writes (snd (then_do (update_deployment_state X d s ''IN_PROGRESS'' det)
                 (\<lambda>_. finish) w)) = writes w @ ws"
    "ws = [] \<or> ws = [(d, s, ''IN_PROGRESS'')] \<or>
     ws = [(d, s, ''IN_PROGRESS''), (d, s, ''SUCCESS'')] \<or>
     ws = [(d, s, ''IN_PROGRESS''), (d, s, ''FAILED'')]"
    by blast
  from ws(2) have "\<forall>(d', s', v) \<in> set ws. s' \<in> {s}" by auto
  moreover from ws(2) have "\<forall>d' s'. only_forward (statuses_of d' s' ws)"
    by (blast intro: statuses_of_step)
  ultimately show "\<exists>ws. writes (snd (then_do (update_deployment_state X d s ''IN_PROGRESS'' det)
                 (\<lambda>_. finish) w)) = writes w @ ws \<and>
                (\<forall>(d, s', v) \<in> set ws. s' \<in> {s}) \<and>
                (\<forall>d s. only_forward (statuses_of d s ws))"
    using ws(1) by blast
qed

lemma stores_only_mono:
  assumes "stores_only T m" and "T \<subseteq> T'"
  shows "stores_only T' m"
proof (rule stores_onlyI)
  fix w
  from stores_onlyD[OF assms(1), of w] assms(2)
  show "\<exists>ws. writes (snd (m w)) = writes w @ ws \<and>
                (\<forall>(d, s, v) \<in> set ws. s \<in> T') \<and>
                (\<forall>d s. only_forward (statuses_of d s ws))"
    by fast
qed

lemma stores_only_namespace_step:
  "stores_only {''create_namespace''} (namespace_step C X depID petname info)"
proof (cases "user_ns info")
  case True
  then show ?thesis
    unfolding namespace_step_def
    by (simp add: stores_only_step[OF finish_step_writes])
next
  case False
  have "stores_only {''create_namespace''} (ret (False, namespace_roles info))"
    by (rule stores_only_mono[OF stores_only_ret]) simp
  with False show ?thesis
    unfolding namespace_step_def by simp
qed

lemma stores_only_user_step:
  "stores_only {''create_user''} (user_step C X depID email info roles)"
  unfolding user_step_def
  by (rule stores_only_step[OF finish_step_writes])


text \<open>The statements after the first update, the whole \<^verbatim>\<open>try\<close> block, and the handler after it.\<close>

lemma stores_only_after_first:
  "stores_only {''create_namespace'', ''create_user'', ''created_namespace'', ''created_user''}
     (then_do (lift r1) (\<lambda>_.
      then_do (lift r2) (\<lambda>info.
      then_do (namespace_step C X depID petname info) (\<lambda>(created_namespace, roles).
      then_do (user_step C X depID email info roles) (\<lambda>created_user.
      then_do (update_deployment_state X depID ''created_namespace''
                 (str_bool created_namespace) None) (\<lambda>_.
      update_deployment_state X depID ''created_user'' (str_bool created_user) None))))))"
proof -
  have flags: "stores_only ({''created_namespace''} \<union> {''created_user''})
      (then_do (update_deployment_state X depID ''created_namespace'' v1 None) (\<lambda>_.
       update_deployment_state X depID ''created_user'' v2 None))" for v1 v2
    by (rule stores_only_then_do[OF stores_only_update stores_only_update]) simp
  have user: "stores_only ({''create_user''} \<union> ({''created_namespace''} \<union> {''created_user''}))
      (then_do (user_step C X depID email info roles) (\<lambda>created_user.
       then_do (update_deployment_state X depID ''created_namespace'' v1 None) (\<lambda>_.
       update_deployment_state X depID ''created_user'' (str_bool created_user) None)))"
    for info roles v1
    by (rule stores_only_then_do[OF stores_only_user_step flags]) simp
  have ns: "stores_only ({''create_namespace''} \<union>
                 ({''create_user''} \<union> ({''created_namespace''} \<union> {''created_user''})))
      (then_do (namespace_step C X depID petname info) (\<lambda>(created_namespace, roles).
       then_do (user_step C X depID email info roles) (\<lambda>created_user.
       then_do (update_deployment_state X depID ''created_namespace''
                  (str_bool created_namespace) None) (\<lambda>_.
       update_deployment_state X depID ''created_user'' (str_bool created_user) None))))"
    for info
  proof (rule stores_only_then_do[OF stores_only_namespace_step])
    fix x :: "bool \<times> (string \<times> string) list"
    show "stores_only ({''create_user''} \<union> ({''created_namespace''} \<union> {''created_user''}))
        (case x of (created_namespace, roles) \<Rightarrow>
           then_do (user_step C X depID email info roles) (\<lambda>created_user.
           then_do (update_deployment_state X depID ''created_namespace''
                      (str_bool created_namespace) None) (\<lambda>_.
           update_deployment_state X depID ''created_user'' (str_bool created_user) None)))"
      by (cases x) (simp only: split_conv user)
  qed simp
  have lab: "stores_only ({} \<union> ({''create_namespace''} \<union>
                 ({''create_user''} \<union> ({''created_namespace''} \<union> {''created_user''}))))
      (then_do (lift r2) (\<lambda>info.
       then_do (namespace_step C X depID petname info) (\<lambda>(created_namespace, roles).
       then_do (user_step C X depID email info roles) (\<lambda>created_user.
       then_do (update_deployment_state X depID ''created_namespace''
                  (str_bool created_namespace) None) (\<lambda>_.
       update_deployment_state X depID ''created_user'' (str_bool created_user) None)))))"
    by (rule stores_only_then_do[OF stores_only_lift ns]) simp
  have env: "stores_only ({} \<union> ({} \<union> ({''create_namespace''} \<union>
                 ({''create_user''} \<union> ({''created_namespace''} \<union> {''created_user''})))))
      (then_do (lift r1) (\<lambda>_.
       then_do (lift r2) (\<lambda>info.
       then_do (namespace_step C X depID petname info) (\<lambda>(created_namespace, roles).
       then_do (user_step C X depID email info roles) (\<lambda>created_user.
       then_do (update_deployment_state X depID ''created_namespace''
                  (str_bool created_namespace) None) (\<lambda>_.
       update_deployment_state X depID ''created_user'' (str_bool created_user) None))))))"
    by (rule stores_only_then_do[OF stores_only_lift lab]) simp
  show ?thesis
    by (rule stores_only_mono[OF env]) simp
qed


lemma record_failure_writes:
  "\<exists>h. writes (snd (record_failure X field (Some d) e w)) = writes w @ h \<and>
        (h = [] \<or> h = [(d, field, ''FAILED'')])"
proof -
  obtain r w1 where run: "update_deployment_state X d field ''FAILED'' (Some (str_exn e)) w = (r, w1)"
    by (cases "update_deployment_state X d field ''FAILED'' (Some (str_exn e)) w")
  from update_deployment_state_writes[OF run] run show ?thesis
    by (cases r) (simp_all add: record_failure_def)
qed

lemma insert_steps_writes:
  "\<exists>a r. writes (snd (insert_steps C X d labID email petname w)) = writes w @ a @ r \<and>
     (a = [] \<or> a = [(d, ''deployment_status'', ''IN_PROGRESS'')]) \<and>
     (\<forall>(d', s, v) \<in> set r.
         s \<in> {''create_namespace'', ''create_user'', ''created_namespace'', ''created_user''}) \<and>
     (\<forall>d' s. only_forward (statuses_of d' s r))"
proof -
  obtain r0 w1 where run: "update_deployment_state X d ''deployment_status'' ''IN_PROGRESS''
      (Some ''Starting deployment'') w = (r0, w1)"
    by (cases "update_deployment_state X d ''deployment_status'' ''IN_PROGRESS''
      (Some ''Starting deployment'') w")
  note first = update_deployment_state_writes[OF run]
  show ?thesis
  proof (cases r0)
    case (Inl e)
    with run first have "writes (snd (insert_steps C X d labID email petname w)) = writes w @ [] @ []"
      by (simp add: insert_steps_def then_do_def)
    then show ?thesis
      by (rule_tac x="[]" in exI, rule_tac x="[]" in exI) (simp add: statuses_of_def)
  next
    case (Inr u)
    let ?rest = "then_do (lift (if falsy (CREATE_NAMESPACE_LAMBDA C) \<or> falsy (CREATE_USER_LAMBDA C) \<or>
                       falsy (LAB_CONFIGURATION_TABLE C)
                    then Inl (RuntimeError ''Missing required environment variables.'')
                    else Inr ())) (\<lambda>_.
      then_do (lift (get_lab_info X labID)) (\<lambda>info.
      then_do (namespace_step C X d petname info) (\<lambda>(created_namespace, roles).
      then_do (user_step C X d email info roles) (\<lambda>created_user.
      then_do (update_deployment_state X d ''created_namespace''
                 (str_bool created_namespace) None) (\<lambda>_.
      update_deployment_state X d ''created_user'' (str_bool created_user) None)))))"
    have rest: "stores_only
        {''create_namespace'', ''create_user'', ''created_namespace'', ''created_user''} ?rest"
      by (rule stores_only_after_first)
    from stores_onlyD[OF rest, of w1]
    obtain r where r: "writes (snd (?rest w1)) = writes w1 @ r"
      "\<forall>(d', s, v) \<in> set r.
         s \<in> {''create_namespace'', ''create_user'', ''created_namespace'', ''created_user''}"
      "\<forall>d' s. only_forward (statuses_of d' s r)"
      by blast
    from run Inr have "snd (insert_steps C X d labID email petname w) = snd (?rest w1)"
      by (simp add: insert_steps_def then_do_def[of "update_deployment_state X d
        ''deployment_status'' ''IN_PROGRESS'' (Some ''Starting deployment'')"])
    with r(1) first Inr have "writes (snd (insert_steps C X d labID email petname w)) =
        writes w @ [(d, ''deployment_status'', ''IN_PROGRESS'')] @ r"
      by simp
    with r(2,3) show ?thesis
      by (rule_tac x="[(d, ''deployment_status'', ''IN_PROGRESS'')]" in exI, rule_tac x=r in exI)
         simp
  qed
qed


lemma process_insert_writes:
  "\<exists>d a r h. writes (snd (process_insert C X record w)) = writes w @ a @ r @ h \<and>
     (a = [] \<or> a = [(d, ''deployment_status'', ''IN_PROGRESS'')]) \<and>
     (\<forall>(d', s, v) \<in> set r.
         s \<in> {''create_namespace'', ''create_user'', ''created_namespace'', ''created_user''}) \<and>
     (\<forall>d' s. only_forward (statuses_of d' s r)) \<and>
     (h = [] \<or> h = [(d, ''deployment_status'', ''FAILED'')])"
proof (cases "insert_fields record")
  case (Inl unbound)
  obtain bound e where unbound: "unbound = (bound, e)" by (cases unbound)
  show ?thesis
  proof (cases bound)
    case None
    with Inl unbound have "writes (snd (process_insert C X record w)) = writes w @ [] @ [] @ []"
      by (simp add: process_insert_def insert_try_def record_failure_def)
    then show ?thesis
      by (rule_tac x="[]" in exI, rule_tac x="[]" in exI, rule_tac x="[]" in exI,
          rule_tac x="[]" in exI) (simp add: statuses_of_def)
  next
    case (Some d)
    from record_failure_writes[of X "''deployment_status''" d e w]
    obtain h where h: "writes (snd (record_failure X ''deployment_status'' (Some d) e w)) = writes w @ h"
      "h = [] \<or> h = [(d, ''deployment_status'', ''FAILED'')]"
      by blast
    from Inl unbound Some h(1)
    have "writes (snd (process_insert C X record w)) = writes w @ [] @ [] @ h"
      by (simp add: process_insert_def insert_try_def)
    with h(2) show ?thesis
      by (rule_tac x=d in exI, rule_tac x="[]" in exI, rule_tac x="[]" in exI,
          rule_tac x=h in exI) (simp add: statuses_of_def)
  qed
next
  case (Inr fields)
  obtain d labID email petname where fields: "fields = (d, labID, email, petname)"
    by (cases fields)
  from insert_steps_writes[of C X d labID email petname w]
  obtain a r where ar: "writes (snd (insert_steps C X d labID email petname w)) = writes w @ a @ r"
     "a = [] \<or> a = [(d, ''deployment_status'', ''IN_PROGRESS'')]"
     "\<forall>(d', s, v) \<in> set r.
         s \<in> {''create_namespace'', ''create_user'', ''created_namespace'', ''created_user''}"
     "\<forall>d' s. only_forward (statuses_of d' s r)"
    by blast
  obtain r0 w1 where run: "insert_steps C X d labID email petname w = (r0, w1)"
    by (cases "insert_steps C X d labID email petname w")
  with ar(1) have w1: "writes w1 = writes w @ a @ r" by simp
  show ?thesis
  proof (cases r0)
    case (Inl e)
    from record_failure_writes[of X "''deployment_status''" d e w1]
    obtain h where h: "writes (snd (record_failure X ''deployment_status'' (Some d) e w1)) = writes w1 @ h"
      "h = [] \<or> h = [(d, ''deployment_status'', ''FAILED'')]"
      by blast
    from Inr fields run Inl h(1) w1
    have "writes (snd (process_insert C X record w)) = writes w @ a @ r @ h"
      by (simp add: process_insert_def insert_try_def)
    with ar(2,3,4) h(2) show ?thesis
      by (rule_tac x=d in exI, rule_tac x=a in exI, rule_tac x=r in exI,
          rule_tac x=h in exI) simp
  next
    case (Inr u)
    with \<open>insert_fields record = Inr fields\<close> fields run w1
    have "writes (snd (process_insert C X record w)) = writes w @ a @ r @ []"
      by (simp add: process_insert_def insert_try_def)
    with ar(2,3,4) show ?thesis
      by (rule_tac x=d in exI, rule_tac x=a in exI, rule_tac x=r in exI,
          rule_tac x="[]" in exI) simp
  qed
qed

lemma bracket_forward:
  assumes "a = [] \<or> a = [(d, ''deployment_status'', ''IN_PROGRESS'')]"
    and "h = [] \<or> h = [(d, ''deployment_status'', ''FAILED'')]"
  shows "only_forward (statuses_of depID step a @ statuses_of depID step h)"
  using assms by (auto simp add: statuses_of_def forward_def)

lemma bracket_other_step:
  assumes "a = [] \<or> a = [(d, ''deployment_status'', v)]" and "step \<noteq> ''deployment_status''"
  shows "statuses_of depID step a = []"
  using assms by (auto simp add: statuses_of_def)

text \<open>
  Claim C9. In every run of \<^verbatim>\<open>process_insert\<close>, whatever the record, the configuration,
  the answers of the actions and the failures of the store, the statuses stored during
  the run for any one step of any one deployment make only forward transitions:
  \<^verbatim>\<open>PENDING\<close> to \<^verbatim>\<open>IN_PROGRESS\<close>, or \<^verbatim>\<open>IN_PROGRESS\<close> to \<^verbatim>\<open>SUCCESS\<close> or \<^verbatim>\<open>FAILED\<close>.
\<close>

theorem statuses_only_move_forward:
  "only_forward (statuses_written depID step w (snd (process_insert C X record w)))"
proof -
  from process_insert_writes[of C X "record" w]
  obtain d a r h where run: "writes (snd (process_insert C X record w)) = writes w @ a @ r @ h"
    and a: "a = [] \<or> a = [(d, ''deployment_status'', ''IN_PROGRESS'')]"
    and r: "\<forall>(d', s, v) \<in> set r.
         s \<in> {''create_namespace'', ''create_user'', ''created_namespace'', ''created_user''}"
       "\<forall>d' s. only_forward (statuses_of d' s r)"
    and h: "h = [] \<or> h = [(d, ''deployment_status'', ''FAILED'')]"
    by blast
  have written: "statuses_written depID step w (snd (process_insert C X record w)) =
      statuses_of depID step a @ statuses_of depID step r @ statuses_of depID step h"
    by (simp add: statuses_written_def new_writes_def run statuses_of_append)
  show ?thesis
  proof (cases "step = ''deployment_status''")
    case True
    have "statuses_of depID step r = []"
      by (rule statuses_of_absent[OF r(1)]) (simp add: True)
    with bracket_forward[OF a h] show ?thesis by (simp add: written)
  next
    case False
    from bracket_other_step[OF a False] bracket_other_step[OF h False] r(2)
    show ?thesis by (simp add: written)
  qed
qed

text \<open>
  The theorem at scenario A, where the statuses stored for the namespace step are
  \<^verbatim>\<open>IN_PROGRESS\<close> then \<^verbatim>\<open>SUCCESS\<close>.
\<close>

theorem statuses_only_move_forward_witness:
  "statuses_written ''d1'' ''create_namespace'' fresh_world
     (snd (process_insert demo_config demo_services insert_d1 fresh_world))
     = [''IN_PROGRESS'', ''SUCCESS'']
   \<and> only_forward [''IN_PROGRESS'', ''SUCCESS'']"
proof -
  have fields: "insert_fields insert_d1 = Inr (''d1'', ''l1'', ''a@b.com'', ''cow'')"
    by (simp add: insert_fields_def new_image_of_def insert_d1_def S_of_def)
  have run: "statuses_written ''d1'' ''create_namespace'' fresh_world
     (snd (process_insert demo_config demo_services insert_d1 fresh_world))
     = [''IN_PROGRESS'', ''SUCCESS'']"
    by (simp add: process_insert_def insert_try_def fields insert_steps_def namespace_step_def
        user_step_def then_do_def lift_def ret_def falsy_def invoke_lambda_def
        update_deployment_state_def update_item_def update_expression_def tick_def
        statuses_written_def statuses_of_def new_writes_def
        demo_config_def demo_services_def demo_lab_def fresh_world_def)
  from statuses_only_move_forward[of "''d1''" "''create_namespace''" fresh_world demo_config
      demo_services insert_d1] run
  show ?thesis by simp
qed

end
